(* ===== verification/Prelude.thy ===== *)
theory Prelude
  imports Complex_Main "HOL-Library.AList"
begin

text \<open>
  Shared vocabulary of the development. JavaScript numbers are modelled as exact
  rationals (\<open>js_number\<close>); the errors that the source can throw are values of
  \<open>js_error\<close>; an out-of-range array read, which yields \<open>undefined\<close> in JavaScript, is
  \<open>None\<close> of \<open>js_array_get\<close>. The collection \<open>js_simps\<close> gathers the evaluation
  rules of the built-ins that the component theories unfold, and the lemmas on
  association lists are the ones the object model of \<open>Js_Object\<close> is proved with.
\<close>

named_theorems js_simps "evaluation rules of the modelled JavaScript built-ins"

type_synonym js_number = rat

datatype js_error =
    TypeError string
  | SyntaxError string

subsection \<open>Array reads\<close>

text \<open>\<open>xs[i]\<close> on a JavaScript array: the element for an index in range, \<open>undefined\<close>
  otherwise (negative indices included; JavaScript does not count from the end).\<close>

definition js_array_get :: "'a list \<Rightarrow> int \<Rightarrow> 'a option" where
  "js_array_get xs i = (if 0 \<le> i \<and> i < int (length xs) then Some (xs ! nat i) else None)"

subsection \<open>\<open>Math.ceil\<close>\<close>

definition Math_ceil :: "js_number \<Rightarrow> js_number" where
  "Math_ceil x = of_int \<lceil>x\<rceil>"

text \<open>Evaluation of \<open>floor\<close> and \<open>ceiling\<close> on numeral fractions, so that concrete
  rows evaluate by \<open>simp\<close>.\<close>

lemma floor_numeral_div [js_simps]:
  "\<lfloor>numeral a / numeral b :: rat\<rfloor> = numeral a div numeral b"
  using floor_divide_of_int_eq [of "numeral a" "numeral b", where 'a = rat] by simp

lemma ceiling_numeral_div [js_simps]:
  "\<lceil>numeral a / numeral b :: rat\<rceil> = - ((- numeral a) div numeral b)"
proof -
  have "\<lceil>numeral a / numeral b :: rat\<rceil> = - \<lfloor>of_int (- numeral a) / of_int (numeral b) :: rat\<rfloor>"
    by (simp add: ceiling_def)
  then show ?thesis by (simp only: floor_divide_of_int_eq)
qed

lemma js_array_get_Some_iff [js_simps]:
  "js_array_get xs i = Some x \<longleftrightarrow> 0 \<le> i \<and> i < int (length xs) \<and> x = xs ! nat i"
  by (auto simp: js_array_get_def)

lemma js_array_get_None_iff [js_simps]:
  "js_array_get xs i = None \<longleftrightarrow> i < 0 \<or> int (length xs) \<le> i"
  by (auto simp: js_array_get_def)

lemma Math_ceil_bounds:
  "x \<le> Math_ceil x \<and> Math_ceil x < x + 1"
  using ceiling_correct [of x] by (simp add: Math_ceil_def)

lemma Math_ceil_mono:
  "x \<le> y \<Longrightarrow> Math_ceil x \<le> Math_ceil y"
  by (simp add: Math_ceil_def ceiling_mono)

lemma Math_ceil_least:
  "x \<le> of_int k \<Longrightarrow> Math_ceil x \<le> of_int k"
  by (simp add: Math_ceil_def ceiling_le_iff)

subsection \<open>Association lists\<close>

text \<open>Keys of an association list after the two operations the object model uses.\<close>

lemma keys_update [simp]:
  "fst ` set (AList.update k v al) = insert k (fst ` set al)"
  by (simp add: dom_update)

lemma keys_delete [simp]:
  "fst ` set (AList.delete k al) = fst ` set al - {k}"
  by (metis delete_keys set_map set_removeAll)

lemma distinct_update_keys [simp]:
  "distinct (map fst al) \<Longrightarrow> distinct (map fst (AList.update k v al))"
  by (rule distinct_update)

lemma distinct_delete_keys [simp]:
  "distinct (map fst al) \<Longrightarrow> distinct (map fst (AList.delete k al))"
  by (rule distinct_delete)

lemma set_update_subset: "set (AList.update k v al) \<subseteq> insert (k, v) (set al)"
  by (induction al) auto

end
