(* ===== verification/Js_Number.thy ===== *)
theory Js_Number
  imports Prelude
begin

text \<open>
  The number-to-string conversions of the ECMAScript library that the program calls:
  \<open>Number.prototype.toFixed\<close> (used for the volume and the percentage columns of
  \<open>ProgramTableRow\<close>, src/src/App.tsx lines 236 and 243). They are not code of the
  repository; they are modelled from the ECMAScript specification (section
  Number.prototype.toFixed) on exact rationals: the sign is printed first, the
  magnitude is rounded to \<open>f\<close> decimals with ties going up, and the integer digits are
  padded so that at least one digit precedes the point. Arguments of magnitude
  \<open>\<ge> 10\<^sup>2\<^sup>1\<close>, which ECMAScript prints in exponent form, are outside the model.
  The decimal printer comes with its parser, and \<open>digits_value_nat_digits\<close> is the
  round trip between them.
\<close>

definition digit_char :: "nat \<Rightarrow> char" where
  "digit_char d = char_of (48 + d)"

fun nat_digits :: "nat \<Rightarrow> string" where
  "nat_digits n =
     (if n < 10 then [digit_char n] else nat_digits (n div 10) @ [digit_char (n mod 10)])"

declare nat_digits.simps [simp del]

definition int_string :: "int \<Rightarrow> string" where
  "int_string k = (if k < 0 then CHR ''-'' # nat_digits (nat (- k)) else nat_digits (nat k))"

text \<open>\<open>x.toFixed(f)\<close>: \<open>n\<close> is the integer for which \<open>n / 10\<^sup>f - x\<close> is closest to zero,
  the larger one on a tie; its digits, padded with zeros to \<open>f + 1\<close> digits, get the
  point inserted before the last \<open>f\<close>.\<close>

definition toFixed :: "nat \<Rightarrow> js_number \<Rightarrow> string" where
  "toFixed f x =
     (let s = (if x < 0 then ''-'' else '''');
          n = nat \<lfloor>\<bar>x\<bar> * 10 ^ f + 1 / 2\<rfloor>;
          m = nat_digits n
      in if f = 0 then s @ m
         else let z = replicate (Suc f - length m) (CHR ''0'') @ m;
                  k = length z - f
              in s @ take k z @ ''.'' @ drop k z)"

lemma digit_char_simps [js_simps]:
  "digit_char 0 = CHR ''0''" "digit_char 1 = CHR ''1''" "digit_char 2 = CHR ''2''"
  "digit_char 3 = CHR ''3''" "digit_char 4 = CHR ''4''" "digit_char 5 = CHR ''5''"
  "digit_char 6 = CHR ''6''" "digit_char 7 = CHR ''7''" "digit_char 8 = CHR ''8''"
  "digit_char 9 = CHR ''9''"
  by code_simp+

text \<open>The rules that evaluate a printed number on a concrete argument.\<close>

lemmas number_eval = toFixed_def int_string_def nat_digits.simps js_simps

subsection \<open>Reading decimal digits back\<close>

definition is_digit :: "char \<Rightarrow> bool" where
  "is_digit c \<longleftrightarrow> 48 \<le> (of_char c :: nat) \<and> (of_char c :: nat) \<le> 57"

definition digit_value :: "char \<Rightarrow> nat" where
  "digit_value c = of_char c - 48"

definition digits_value :: "string \<Rightarrow> nat" where
  "digits_value cs = foldl (\<lambda>acc c. 10 * acc + digit_value c) 0 cs"

lemma digit_char_props:
  assumes "d < 10"
  shows "is_digit (digit_char d)" and "digit_value (digit_char d) = d"
proof -
  have "of_char (digit_char d) = (48 + d :: nat)"
    using assms by (simp add: digit_char_def)
  then show "is_digit (digit_char d)" and "digit_value (digit_char d) = d"
    using assms by (simp_all add: is_digit_def digit_value_def)
qed

lemma digits_value_snoc [simp]:
  "digits_value (cs @ [c]) = 10 * digits_value cs + digit_value c"
  by (simp add: digits_value_def)

lemma nat_digits_not_Nil [simp]: "nat_digits n \<noteq> []"
  by (subst nat_digits.simps) simp

lemma nat_digits_all_digits: "\<forall>c \<in> set (nat_digits n). is_digit c"
proof (induction n rule: nat_digits.induct)
  case (1 n)
  then show ?case
    by (subst nat_digits.simps) (auto simp: digit_char_props)
qed

text \<open>The printer and the parser are inverse: the round trip of a natural number.\<close>

lemma digits_value_nat_digits: "digits_value (nat_digits n) = n"
proof (induction n rule: nat_digits.induct)
  case (1 n)
  show ?case
  proof (cases "n < 10")
    case True
    then show ?thesis
      by (subst nat_digits.simps) (simp add: digits_value_def digit_char_props)
  next
    case False
    then have "digits_value (nat_digits n) = 10 * (n div 10) + n mod 10"
      using "1.IH" by (subst nat_digits.simps) (simp add: digit_char_props)
    then show ?thesis by simp
  qed
qed

lemma nat_digits_inj: "nat_digits m = nat_digits n \<Longrightarrow> m = n"
  by (metis digits_value_nat_digits)

subsection \<open>toFixed on integers\<close>

lemma floor_abs_int_half: "\<lfloor>\<bar>of_int k :: rat\<bar> + 1 / 2\<rfloor> = \<bar>k\<bar>"
  by (rule floor_unique) simp_all

text \<open>On an integer, \<open>toFixed(0)\<close> rounds nothing: it prints the integer.\<close>

lemma toFixed_0_of_int: "toFixed 0 (of_int k) = int_string k"
  using floor_abs_int_half [of k]
  by (simp add: toFixed_def int_string_def Let_def)

subsection \<open>The shape of \<open>toFixed\<close> output\<close>

lemma digits_value_append:
  "digits_value (xs @ ys) = digits_value xs * 10 ^ length ys + digits_value ys"
proof (induction ys rule: rev_induct)
  case Nil
  then show ?case by (simp add: digits_value_def)
next
  case (snoc y ys)
  then show ?case by (simp flip: append_assoc add: algebra_simps)
qed

lemma digit_value_zero [simp]: "digit_value (CHR ''0'') = 0"
  by (simp add: digit_value_def)

lemma is_digit_zero [simp]: "is_digit (CHR ''0'')"
  by (simp add: is_digit_def)

lemma digits_value_zeros: "digits_value (replicate j (CHR ''0'') @ m) = digits_value m"
proof -
  have "digits_value (replicate j (CHR ''0'')) = 0"
    by (induction j) (simp_all add: digits_value_def replicate_app_Cons_same [symmetric]
      del: replicate_app_Cons_same)
  then show ?thesis by (simp add: digits_value_append)
qed

lemma nat_digits_zero: "nat_digits 0 = [CHR ''0'']"
  by (simp add: nat_digits.simps digit_char_simps)

lemma nat_digits_hd: "0 < n \<Longrightarrow> hd (nat_digits n) \<noteq> CHR ''0''"
proof (induction n rule: nat_digits.induct)
  case (1 n)
  show ?case
  proof (cases "n < 10")
    case True
    then have "of_char (digit_char n) = (48 + n :: nat)" by (simp add: digit_char_def)
    then have "digit_char n \<noteq> CHR ''0''" using "1.prems" by auto
    then show ?thesis using True by (subst nat_digits.simps) simp
  next
    case False
    then have "hd (nat_digits (n div 10)) \<noteq> CHR ''0''" using "1.IH" by simp
    then show ?thesis using False by (subst nat_digits.simps) simp
  qed
qed

lemma list_all_digits_nat_digits: "list_all is_digit (nat_digits n)"
  using nat_digits_all_digits by (simp add: list_all_iff)

text \<open>With at least one decimal, \<open>toFixed\<close> prints a sign, an integer part without
  leading zeros, a point, and exactly \<open>f\<close> digits, which together spell the rounded
  value.\<close>

lemma toFixed_parts:
  assumes "0 < f"
  shows "\<exists>ip fp. toFixed f x = (if x < 0 then ''-'' else []) @ ip @ CHR ''.'' # fp \<and>
           ip \<noteq> [] \<and> list_all is_digit ip \<and> list_all is_digit fp \<and> length fp = f \<and>
           (hd ip = CHR ''0'' \<longrightarrow> length ip = 1) \<and>
           digits_value (ip @ fp) = nat \<lfloor>\<bar>x\<bar> * 10 ^ f + 1 / 2\<rfloor>"
proof -
  define n where "n = nat \<lfloor>\<bar>x\<bar> * 10 ^ f + 1 / 2\<rfloor>"
  define m where "m = nat_digits n"
  define z where "z = replicate (Suc f - length m) (CHR ''0'') @ m"
  define k where "k = length z - f"
  have lz: "Suc f \<le> length z" by (simp add: z_def)
  have tf: "toFixed f x = (if x < 0 then ''-'' else []) @ take k z @ CHR ''.'' # drop k z"
    using assms by (simp add: toFixed_def Let_def n_def m_def z_def k_def)
  have ip: "take k z \<noteq> []" using lz by (auto simp: k_def)
  have dz: "list_all is_digit z"
    using nat_digits_all_digits [of n] by (auto simp: z_def m_def list_all_iff)
  have lfp: "length (drop k z) = f" using lz by (simp add: k_def)
  have lead: "hd (take k z) = CHR ''0'' \<longrightarrow> length (take k z) = 1"
  proof (cases "length m < Suc f")
    case True
    then have "length z = Suc f" by (simp add: z_def)
    then show ?thesis by (simp add: k_def)
  next
    case False
    then have zm: "z = m" by (simp add: z_def)
    have "hd (take k z) = hd m" using ip zm by (simp add: hd_take)
    moreover have "hd m \<noteq> CHR ''0''"
    proof
      assume "hd m = CHR ''0''"
      then have "n = 0" using nat_digits_hd [of n] by (auto simp: m_def)
      then show False using False assms by (simp add: m_def nat_digits_zero)
    qed
    ultimately show ?thesis by simp
  qed
  have "digits_value z = n"
    by (simp add: z_def digits_value_zeros m_def digits_value_nat_digits)
  then have "digits_value (take k z @ drop k z) = n" by simp
  moreover have "list_all is_digit (take k z)" and "list_all is_digit (drop k z)"
    using dz by (auto simp: list_all_iff dest: in_set_takeD in_set_dropD)
  ultimately show ?thesis
    using tf ip lfp lead
    by (intro exI [of _ "take k z"] exI [of _ "drop k z"]) (simp add: n_def)
qed

end
