(* ===== verification/Js_Object.thy ===== *)
theory Js_Object
  imports Js_Number
begin

text \<open>
  The plain JavaScript object that holds the lifts (\<open>lifts\<close> / \<open>liftsState\<close> in
  src/src/App.tsx). Its own data properties are an association list in insertion
  order (\<open>js_object\<close>); the program only stores numbers in it. The operations are
  the ones the source applies to it, modelled from ECMAScript:
  \<^item> \<open>js_get\<close>, the read \<open>o[k]\<close>: the own property if there is one, otherwise the
    member that \<open>Object.prototype\<close> supplies (\<open>toString\<close>, \<open>constructor\<close>, ...;
    \<open>__proto__\<close> yields the prototype object), otherwise \<open>undefined\<close>;
  \<^item> \<open>js_set\<close>, the assignment \<open>o[k] = v\<close>: updates an own property in place or
    appends a new one, except that \<open>o.__proto__ = v\<close> without an own \<open>__proto__\<close>
    calls the inherited setter, which ignores a number;
  \<^item> \<open>js_delete\<close>, \<open>delete o[k]\<close>; the spread copy \<open>{...o}\<close> copies the own
    properties in order, so on contents it is the identity;
  \<^item> \<open>js_entries\<close>, \<open>Object.entries(o)\<close>, in the order of OrdinaryOwnPropertyKeys:
    array-index keys ascending, then the other keys in insertion order.
  \<open>truthy\<close> is JavaScript's ToBoolean on the values a read can give. The abstraction
  \<open>obj_map\<close> maps an object to the finite map of its own properties; the lemmas
  of the last section are the refinement of each operation to a map operation.
\<close>

type_synonym js_object = "(string \<times> js_number) list"

datatype js_value =
    JsUndefined
  | JsNumber js_number
  | JsFunction string
  | JsPrototypeObject

definition object_prototype_members :: "string list" where
  "object_prototype_members =
     [''constructor'', ''__defineGetter__'', ''__defineSetter__'', ''hasOwnProperty'',
      ''__lookupGetter__'', ''__lookupSetter__'', ''isPrototypeOf'', ''propertyIsEnumerable'',
      ''toString'', ''valueOf'', ''__proto__'', ''toLocaleString'']"

definition js_get :: "js_object \<Rightarrow> string \<Rightarrow> js_value" where
  "js_get obj k =
     (case map_of obj k of
        Some v \<Rightarrow> JsNumber v
      | None \<Rightarrow>
          if k = ''__proto__'' then JsPrototypeObject
          else if k \<in> set object_prototype_members then JsFunction k
          else JsUndefined)"

definition truthy :: "js_value \<Rightarrow> bool" where
  "truthy v = (case v of JsUndefined \<Rightarrow> False | JsNumber n \<Rightarrow> n \<noteq> 0 | _ \<Rightarrow> True)"

definition js_set :: "js_object \<Rightarrow> string \<Rightarrow> js_number \<Rightarrow> js_object" where
  "js_set obj k v =
     (if k = ''__proto__'' \<and> map_of obj k = None then obj else AList.update k v obj)"

definition js_delete :: "js_object \<Rightarrow> string \<Rightarrow> js_object" where
  "js_delete obj k = AList.delete k obj"

definition is_array_index :: "string \<Rightarrow> bool" where
  "is_array_index k \<longleftrightarrow>
     k \<noteq> [] \<and> list_all is_digit k \<and> (k = ''0'' \<or> hd k \<noteq> CHR ''0'') \<and>
     digits_value k < 2 ^ 32 - 1"

definition js_entries :: "js_object \<Rightarrow> (string \<times> js_number) list" where
  "js_entries obj =
     sort_key (\<lambda>(k, _). digits_value k) (filter (\<lambda>(k, _). is_array_index k) obj) @
     filter (\<lambda>(k, _). \<not> is_array_index k) obj"

text \<open>Well-formed objects: every own key occurs once.\<close>

definition obj_wf :: "js_object \<Rightarrow> bool" where
  "obj_wf obj \<longleftrightarrow> distinct (map fst obj)"

abbreviation obj_map :: "js_object \<Rightarrow> string \<rightharpoonup> js_number" where
  "obj_map obj \<equiv> map_of obj"

abbreviation obj_keys :: "js_object \<Rightarrow> string set" where
  "obj_keys obj \<equiv> fst ` set obj"

subsection \<open>Reads\<close>

lemma proto_in_prototype_members: "''__proto__'' \<in> set object_prototype_members"
  by (simp add: object_prototype_members_def)

lemma js_get_own [simp]: "map_of obj k = Some v \<Longrightarrow> js_get obj k = JsNumber v"
  by (simp add: js_get_def)

lemma js_get_absent:
  "map_of obj k = None \<Longrightarrow> k \<notin> set object_prototype_members \<Longrightarrow> js_get obj k = JsUndefined"
  using proto_in_prototype_members by (auto simp: js_get_def)

lemma truthy_js_get:
  "truthy (js_get obj k) \<longleftrightarrow>
   (case map_of obj k of Some v \<Rightarrow> v \<noteq> 0 | None \<Rightarrow> k \<in> set object_prototype_members)"
  using proto_in_prototype_members by (auto simp: js_get_def truthy_def split: option.split)

subsection \<open>Well-formedness\<close>

lemma obj_wf_js_set [simp]: "obj_wf obj \<Longrightarrow> obj_wf (js_set obj k v)"
  by (simp add: obj_wf_def js_set_def)

lemma obj_wf_js_delete [simp]: "obj_wf obj \<Longrightarrow> obj_wf (js_delete obj k)"
  by (simp add: obj_wf_def js_delete_def)

lemma obj_keys_js_delete [simp]: "obj_keys (js_delete obj k) = obj_keys obj - {k}"
  by (simp add: js_delete_def)

lemma obj_keys_js_set:
  "obj_keys (js_set obj k v) =
   (if k = ''__proto__'' \<and> k \<notin> obj_keys obj then obj_keys obj else insert k (obj_keys obj))"
  by (auto simp: js_set_def map_of_eq_None_iff)

subsection \<open>Refinement to finite maps\<close>

lemma js_set_proto_setter:
  "map_of obj ''__proto__'' = None \<Longrightarrow> js_set obj ''__proto__'' v = obj"
  by (simp add: js_set_def)

lemma obj_map_js_set_plain [simp]:
  "k \<noteq> ''__proto__'' \<Longrightarrow> obj_map (js_set obj k v) = (obj_map obj)(k \<mapsto> v)"
  by (simp add: js_set_def update_conv')

lemma obj_map_js_set_own:
  "map_of obj k \<noteq> None \<Longrightarrow> obj_map (js_set obj k v) = (obj_map obj)(k \<mapsto> v)"
  by (auto simp: js_set_def update_conv')

lemma obj_map_js_delete [simp]: "obj_map (js_delete obj k) = (obj_map obj)(k := None)"
  by (simp add: js_delete_def delete_conv')

lemma js_delete_idem [simp]: "js_delete (js_delete obj k) k = js_delete obj k"
  by (simp add: js_delete_def delete_idem)

lemma js_delete_absent: "k \<notin> obj_keys obj \<Longrightarrow> js_delete obj k = obj"
  by (simp add: js_delete_def)

lemmas js_object_simps = obj_keys_js_set truthy_js_get js_get_def truthy_def

end
