(* ===== verification/Lifts_Table.thy ===== *)
theory Lifts_Table
  imports Js_Object
begin

text \<open>
  The lift registry's mutations: \<open>defaultLifts\<close> (src/src/App.tsx lines 7--21) and the
  handlers of \<open>LiftsTable\<close> (lines 144--225). Each handler of the source calls
  \<open>setLifts\<close> with an updater function, \<open>alert\<close>, or \<open>setIsAddingNewLift\<close>; the model
  lists these calls as \<open>table_effect\<close>s in the order the handler makes them, and the
  three updaters are the constructors of \<open>lifts_update\<close>, applied to the object by
  \<open>apply_lifts_update\<close> (\<open>delete\<close> and assignment in place, then a spread copy, which
  on contents is the identity). \<open>lifts_after\<close> runs the queued updaters in order, as
  React does when it processes the state queue of one event.
\<close>

record lift =
  lift_name :: string
  lift_max :: js_number

definition defaultLifts :: js_object where
  "defaultLifts =
     [(''Bench Press'', 160), (''Incline Dumbbell Press'', 60),
      (''Squat'', 240), (''Deadlift'', 280),
      (''Barbell Overhead Press'', 100), (''Dumbbell Overhead Press'', 50),
      (''Dips'', 90), (''Close-Grip Bench Press'', 140),
      (''Pull-ups'', 50)]"

datatype lifts_update =
    RenameLift string lift \<comment> \<open>\<open>onSave\<close> of an existing row, keyed by the row's \<open>name\<close>\<close>
  | DeleteLift string      \<comment> \<open>\<open>onDelete\<close>, with the name the row reports\<close>
  | AddLift lift           \<comment> \<open>\<open>onSave\<close> of the add row, after validation\<close>

fun apply_lifts_update :: "lifts_update \<Rightarrow> js_object \<Rightarrow> js_object" where
  "apply_lifts_update (RenameLift name lift) liftsState =
     js_set (js_delete liftsState name) (lift_name lift) (lift_max lift)"
| "apply_lifts_update (DeleteLift name) liftsState = js_delete liftsState name"
| "apply_lifts_update (AddLift lift) liftsState =
     js_set liftsState (lift_name lift) (lift_max lift)"

datatype table_effect =
    Alert string
  | SetLifts lifts_update
  | SetIsAddingNewLift bool

text \<open>The handlers a row of the table is given (lines 165--177) and those of the add
  row (lines 186--205), with the \<open>+\<close> button (lines 213--215).\<close>

definition onSave_row :: "string \<Rightarrow> lift \<Rightarrow> table_effect list" where
  "onSave_row name lift = [SetLifts (RenameLift name lift)]"

definition onDelete_row :: "string \<Rightarrow> table_effect list" where
  "onDelete_row name = [SetLifts (DeleteLift name)]"

definition onSave_new :: "js_object \<Rightarrow> lift \<Rightarrow> table_effect list" where
  "onSave_new lifts lift =
     (if lift_name lift = [] then [Alert ''Please choose a name for the lift'']
      else if truthy (js_get lifts (lift_name lift))
      then [Alert ''lift with such name already exists!'']
      else [SetLifts (AddLift lift), SetIsAddingNewLift False])"

definition onCancel_new :: "table_effect list" where
  "onCancel_new = [SetIsAddingNewLift False]"

definition onClick_add :: "table_effect list" where
  "onClick_add = [SetIsAddingNewLift True]"

fun lifts_after :: "table_effect list \<Rightarrow> js_object \<Rightarrow> js_object" where
  "lifts_after [] s = s"
| "lifts_after (SetLifts u # es) s = lifts_after es (apply_lifts_update u s)"
| "lifts_after (_ # es) s = lifts_after es s"

fun sets_lifts :: "table_effect list \<Rightarrow> bool" where
  "sets_lifts [] = False"
| "sets_lifts (SetLifts u # es) = True"
| "sets_lifts (_ # es) = sets_lifts es"

subsection \<open>Updaters\<close>

lemma obj_wf_apply_lifts_update [simp]:
  "obj_wf s \<Longrightarrow> obj_wf (apply_lifts_update u s)"
  by (cases u) simp_all

lemma lifts_after_append [simp]:
  "lifts_after (es @ fs) s = lifts_after fs (lifts_after es s)"
  by (induction es s rule: lifts_after.induct) simp_all

lemma lifts_after_no_set: "\<not> sets_lifts es \<Longrightarrow> lifts_after es s = s"
  by (induction es s rule: lifts_after.induct) simp_all

lemma obj_wf_lifts_after: "obj_wf s \<Longrightarrow> obj_wf (lifts_after es s)"
  by (induction es s rule: lifts_after.induct) simp_all

subsection \<open>The add row's validation\<close>

lemma onSave_new_accept:
  "lift_name lift \<noteq> [] \<Longrightarrow> \<not> truthy (js_get lifts (lift_name lift)) \<Longrightarrow>
   onSave_new lifts lift = [SetLifts (AddLift lift), SetIsAddingNewLift False]"
  by (simp add: onSave_new_def)

lemma onSave_new_reject:
  "lift_name lift = [] \<or> truthy (js_get lifts (lift_name lift)) \<Longrightarrow>
   \<exists>msg. onSave_new lifts lift = [Alert msg]"
  by (auto simp: onSave_new_def)

text \<open>A name the duplicate check lets through is stored: it is not the inherited
  \<open>__proto__\<close> accessor, whose read is truthy.\<close>

lemma obj_map_js_set_falsy:
  "\<not> truthy (js_get lifts n) \<Longrightarrow> obj_map (js_set lifts n v) = (obj_map lifts)(n \<mapsto> v)"
  using proto_in_prototype_members
  by (cases "n = ''__proto__''") (auto simp: truthy_js_get obj_map_js_set_own split: option.splits)

subsection \<open>Properties of the registry's mutations\<close>

text \<open>C6: saving the add row with a non-empty name whose read is falsy stores exactly
  that entry and closes the add row: the lift object afterwards maps the name to the
  entered 1RM and agrees with the old one elsewhere.\<close>

theorem add_new_lift:
  assumes "lift_name lift \<noteq> []" and "\<not> truthy (js_get lifts (lift_name lift))"
  shows "onSave_new lifts lift = [SetLifts (AddLift lift), SetIsAddingNewLift False] \<and>
         obj_map (lifts_after (onSave_new lifts lift) lifts) =
           (obj_map lifts)(lift_name lift \<mapsto> lift_max lift)"
  using assms by (simp add: onSave_new_accept obj_map_js_set_falsy)

theorem add_new_lift_witness:
  "''Front Squat'' \<noteq> [] \<and> \<not> truthy (js_get defaultLifts ''Front Squat'') \<and>
   obj_map (lifts_after (onSave_new defaultLifts \<lparr>lift_name = ''Front Squat'', lift_max = 200\<rparr>)
      defaultLifts) ''Front Squat'' = Some 200"
proof -
  have n: "lift_name \<lparr>lift_name = ''Front Squat'', lift_max = 200\<rparr> \<noteq> []" by simp
  have f: "\<not> truthy (js_get defaultLifts
             (lift_name \<lparr>lift_name = ''Front Squat'', lift_max = 200 :: rat\<rparr>))"
    by (simp add: defaultLifts_def js_get_def truthy_def object_prototype_members_def)
  show ?thesis using n f add_new_lift [OF n f] by simp
qed

text \<open>C7: saving the add row with an empty name, or with a name whose read is truthy,
  only raises an alert: no updater is queued, so the lift object is unchanged and the
  save effect does not run.\<close>

theorem add_rejected_unchanged:
  assumes "lift_name lift = [] \<or> truthy (js_get lifts (lift_name lift))"
  shows "(\<exists>msg. onSave_new lifts lift = [Alert msg]) \<and> \<not> sets_lifts (onSave_new lifts lift) \<and>
         lifts_after (onSave_new lifts lift) s = s"
proof -
  obtain msg where "onSave_new lifts lift = [Alert msg]"
    using onSave_new_reject [OF assms] by blast
  then show ?thesis by simp
qed

theorem add_rejected_unchanged_witness:
  "(''Squat'' = [] \<or> truthy (js_get defaultLifts ''Squat'')) \<and>
   onSave_new defaultLifts \<lparr>lift_name = ''Squat'', lift_max = 100\<rparr> =
     [Alert ''lift with such name already exists!''] \<and>
   lifts_after (onSave_new defaultLifts \<lparr>lift_name = ''Squat'', lift_max = 100\<rparr>) defaultLifts =
     defaultLifts"
proof -
  have t: "lift_name \<lparr>lift_name = ''Squat'', lift_max = 100 :: rat\<rparr> = [] \<or>
           truthy (js_get defaultLifts (lift_name \<lparr>lift_name = ''Squat'', lift_max = 100 :: rat\<rparr>))"
    by (simp add: defaultLifts_def js_get_def truthy_def)
  have "onSave_new defaultLifts \<lparr>lift_name = ''Squat'', lift_max = 100\<rparr> =
     [Alert ''lift with such name already exists!'']"
    by (simp add: onSave_new_def defaultLifts_def js_get_def truthy_def)
  then show ?thesis using t add_rejected_unchanged [OF t, of defaultLifts] by simp
qed

text \<open>C8: the duplicate check tests the truthiness of \<open>lifts[lift.name]\<close>, not the
  presence of the key: a lift whose 1RM is 0 is not recognised as existing, and adding
  a lift of the same name overwrites it.\<close>

theorem add_overwrites_zero_max:
  assumes "map_of lifts n = Some 0" and "n \<noteq> []"
  shows "onSave_new lifts \<lparr>lift_name = n, lift_max = m\<rparr> =
           [SetLifts (AddLift \<lparr>lift_name = n, lift_max = m\<rparr>), SetIsAddingNewLift False] \<and>
         obj_map (lifts_after (onSave_new lifts \<lparr>lift_name = n, lift_max = m\<rparr>) lifts) n = Some m"
proof -
  have f: "\<not> truthy (js_get lifts n)" using assms(1) by (simp add: truthy_def)
  then show ?thesis using assms(2) by (simp add: onSave_new_accept obj_map_js_set_falsy)
qed

theorem add_overwrites_zero_max_witness:
  "map_of [(''Dips'', 0)] ''Dips'' = Some 0 \<and> ''Dips'' \<noteq> [] \<and>
   obj_map (lifts_after (onSave_new [(''Dips'', 0)] \<lparr>lift_name = ''Dips'', lift_max = 90\<rparr>)
     [(''Dips'', 0)]) ''Dips'' = Some 90"
proof -
  have z: "map_of [(''Dips'', 0 :: rat)] ''Dips'' = Some 0" by simp
  have n: "''Dips'' \<noteq> []" by simp
  show ?thesis using z n add_overwrites_zero_max [OF z n, of 90] by simp
qed

text \<open>C9: the read \<open>lifts[lift.name]\<close> also sees the members \<open>Object.prototype\<close>
  supplies: a new lift named \<open>toString\<close>, \<open>constructor\<close>, \<open>__proto__\<close>, ... is
  rejected as a duplicate although no such lift exists.\<close>

theorem add_rejects_prototype_names:
  assumes "n \<in> set object_prototype_members" and "map_of lifts n = None"
  shows "onSave_new lifts \<lparr>lift_name = n, lift_max = m\<rparr> =
           [Alert ''lift with such name already exists!'']"
proof -
  have "n \<noteq> []" using assms(1) by (auto simp: object_prototype_members_def)
  moreover have "truthy (js_get lifts n)" using assms by (simp add: truthy_js_get)
  ultimately show ?thesis by (simp add: onSave_new_def)
qed

theorem add_rejects_prototype_names_witness:
  "''toString'' \<in> set object_prototype_members \<and> map_of defaultLifts ''toString'' = None \<and>
   onSave_new defaultLifts \<lparr>lift_name = ''toString'', lift_max = 100\<rparr> =
     [Alert ''lift with such name already exists!'']"
proof -
  have p: "''toString'' \<in> set object_prototype_members"
    by (simp add: object_prototype_members_def)
  have a: "map_of defaultLifts ''toString'' = None" by (simp add: defaultLifts_def)
  show ?thesis using p a add_rejects_prototype_names [OF p a, of 100] by simp
qed

text \<open>C10: Delete of a row removes exactly that name from the lift object, and it is
  idempotent (spec.md section 8): deleting twice gives the object of deleting once, and
  deleting a name that is not a lift changes nothing.\<close>

theorem delete_idempotent:
  "obj_map (lifts_after (onDelete_row n) s) = (obj_map s)(n := None) \<and>
   lifts_after (onDelete_row n @ onDelete_row n) s = lifts_after (onDelete_row n) s \<and>
   (n \<notin> obj_keys s \<longrightarrow> lifts_after (onDelete_row n) s = s)"
  by (simp add: onDelete_row_def js_delete_absent)

theorem delete_idempotent_witness:
  "''Lunges'' \<notin> obj_keys defaultLifts \<and>
   lifts_after (onDelete_row ''Lunges'') defaultLifts = defaultLifts"
proof -
  have a: "''Lunges'' \<notin> obj_keys defaultLifts" by (simp add: defaultLifts_def)
  show ?thesis using a delete_idempotent [of "''Lunges''" defaultLifts] by blast
qed

text \<open>C11: saving an edited row removes the row's old name and stores the new name with
  the new 1RM; a lift already stored under the new name is silently overwritten.\<close>

theorem rename_overwrites:
  assumes "lift_name lift \<noteq> ''__proto__''"
  shows "obj_map (apply_lifts_update (RenameLift old lift) s) =
         ((obj_map s)(old := None))(lift_name lift \<mapsto> lift_max lift)"
  using assms by simp

theorem rename_overwrites_witness:
  "''Deadlift'' \<noteq> ''__proto__'' \<and>
   obj_map (apply_lifts_update (RenameLift ''Squat'' \<lparr>lift_name = ''Deadlift'', lift_max = 250\<rparr>)
     defaultLifts) ''Deadlift'' = Some 250 \<and>
   obj_map (apply_lifts_update (RenameLift ''Squat'' \<lparr>lift_name = ''Deadlift'', lift_max = 250\<rparr>)
     defaultLifts) ''Squat'' = None"
proof -
  have p: "lift_name \<lparr>lift_name = ''Deadlift'', lift_max = 250 :: rat\<rparr> \<noteq> ''__proto__''" by simp
  show ?thesis using rename_overwrites [OF p, of "''Squat''" defaultLifts] by simp
qed

text \<open>C12: the edit path has no validation at all: renaming a lift to \<open>__proto__\<close>
  deletes it and stores nothing, since the assignment goes to the inherited
  \<open>__proto__\<close> setter, which ignores a number.\<close>

theorem rename_to_proto_drops_lift:
  assumes "map_of s ''__proto__'' = None"
  shows "obj_map (apply_lifts_update (RenameLift old \<lparr>lift_name = ''__proto__'', lift_max = m\<rparr>) s) =
         (obj_map s)(old := None)"
proof -
  have "map_of (js_delete s old) ''__proto__'' = None" using assms by simp
  then show ?thesis by (simp add: js_set_proto_setter)
qed

theorem rename_to_proto_drops_lift_witness:
  "map_of defaultLifts ''__proto__'' = None \<and>
   obj_map (apply_lifts_update (RenameLift ''Dips'' \<lparr>lift_name = ''__proto__'', lift_max = 90\<rparr>)
     defaultLifts) = (obj_map defaultLifts)(''Dips'' := None)"
proof -
  have a: "map_of defaultLifts ''__proto__'' = None" by (simp add: defaultLifts_def)
  show ?thesis using a rename_to_proto_drops_lift [OF a, of "''Dips''" 90] by simp
qed

end
