(* ===== verification/Lift_Row.thy ===== *)
theory Lift_Row
  imports Lifts_Table
begin

text \<open>
  \<open>LiftTableRow\<close> (src/src/App.tsx lines 51--142) as a state machine. Its props are
  \<open>row_props\<close>; its local state (the three \<open>useState\<close> hooks, lines 66--68) is
  \<open>row_state\<close>, initialised from the props when the row is mounted (\<open>row_mount\<close>).
  A user event is a \<open>row_event\<close>; \<open>row_step\<close> gives the new local state and the
  callbacks the handler calls, in order, or \<open>None\<close> when the control is not rendered
  or disabled, so that the event cannot happen: the inputs are disabled unless the
  row is being edited or is the add row (lines 76, 85), Save and Cancel exist only in
  those two modes (line 90), Delete only while editing (line 116), Edit only outside
  them (lines 128--137). The value of the number input is the number the input
  yields (\<open>Number(ev.target.value)\<close>, line 86).
\<close>

record row_props =
  nameProp :: string
  maxProp :: js_number
  isAddingNew :: bool

record row_state =
  edit_name :: string
  edit_max :: js_number
  isEditing :: bool

datatype row_event =
    ClickEdit
  | InputName string
  | InputMax js_number
  | ClickSave
  | ClickCancel
  | ClickDelete

datatype row_callback =
    CallSave lift
  | CallDelete string
  | CallCancel

definition row_mount :: "row_props \<Rightarrow> row_state" where
  "row_mount p = \<lparr>edit_name = nameProp p, edit_max = maxProp p, isEditing = False\<rparr>"

definition inputs_enabled :: "row_props \<Rightarrow> row_state \<Rightarrow> bool" where
  "inputs_enabled p st \<longleftrightarrow> isAddingNew p \<or> isEditing st"

fun row_step :: "row_props \<Rightarrow> row_state \<Rightarrow> row_event \<Rightarrow> (row_state \<times> row_callback list) option" where
  "row_step p st ClickEdit =
     (if isEditing st \<or> isAddingNew p then None else Some (st\<lparr>isEditing := True\<rparr>, []))"
| "row_step p st (InputName s) =
     (if inputs_enabled p st then Some (st\<lparr>edit_name := s\<rparr>, []) else None)"
| "row_step p st (InputMax v) =
     (if inputs_enabled p st then Some (st\<lparr>edit_max := v\<rparr>, []) else None)"
| "row_step p st ClickSave =
     (if isEditing st \<or> isAddingNew p
      then Some (st\<lparr>isEditing := False\<rparr>,
                 [CallSave \<lparr>lift_name = edit_name st, lift_max = edit_max st\<rparr>])
      else None)"
| "row_step p st ClickCancel =
     (if isEditing st \<or> isAddingNew p
      then Some (st\<lparr>isEditing := False, edit_name := nameProp p, edit_max := maxProp p\<rparr>,
                 [CallCancel])
      else None)"
| "row_step p st ClickDelete =
     (if isEditing st then Some (st, [CallDelete (edit_name st)]) else None)"

text \<open>Runs of a row over a sequence of events, as long as every event is possible.\<close>

fun row_run :: "row_props \<Rightarrow> row_state \<Rightarrow> row_event list \<Rightarrow> (row_state \<times> row_callback list) option" where
  "row_run p st [] = Some (st, [])"
| "row_run p st (e # es) =
     (case row_step p st e of
        None \<Rightarrow> None
      | Some (st', cs) \<Rightarrow>
          (case row_run p st' es of None \<Rightarrow> None | Some (st'', cs') \<Rightarrow> Some (st'', cs @ cs')))"

fun_cases row_step_SomeE: "row_step p st e = Some r"

lemma row_step_not_editing_add_row:
  "isAddingNew p \<Longrightarrow> \<not> isEditing st \<Longrightarrow> row_step p st e = Some (st', cs) \<Longrightarrow> \<not> isEditing st'"
  by (cases e) (auto split: if_splits)

lemma row_step_props_cancel:
  "row_step p st ClickCancel = Some (st', cs) \<Longrightarrow> st' = row_mount p \<and> cs = [CallCancel]"
  by (auto simp: row_mount_def split: if_splits)

definition is_input_event :: "row_event \<Rightarrow> bool" where
  "is_input_event e \<longleftrightarrow> (case e of InputName _ \<Rightarrow> True | InputMax _ \<Rightarrow> True | _ \<Rightarrow> False)"

lemma row_run_inputs_editing:
  assumes "list_all is_input_event es" and "isEditing st"
  shows "\<exists>st'. row_run p st es = Some (st', []) \<and> isEditing st'"
  using assms
proof (induction es arbitrary: st)
  case Nil
  then show ?case by simp
next
  case (Cons e es)
  have ie: "is_input_event e" and es: "list_all is_input_event es"
    using Cons.prems(1) by simp_all
  obtain st1 where s1: "row_step p st e = Some (st1, [])" and ed: "isEditing st1"
    using ie Cons.prems(2) by (cases e) (auto simp: is_input_event_def inputs_enabled_def)
  obtain st' where "row_run p st1 es = Some (st', [])" and "isEditing st'"
    using Cons.IH [OF es ed] by blast
  then show ?case using s1 by simp
qed

lemma row_run_append:
  "row_run p st (es @ fs) =
     (case row_run p st es of
        None \<Rightarrow> None
      | Some (st', cs) \<Rightarrow> (case row_run p st' fs of None \<Rightarrow> None | Some (st'', cs') \<Rightarrow> Some (st'', cs @ cs')))"
  by (induction es arbitrary: st) (auto split: option.split)

subsection \<open>Properties of a row\<close>

text \<open>C13: a displayed row that is not being edited accepts no input and offers neither
  Save nor Delete: its name and 1RM can only change after Edit is clicked.\<close>

theorem row_locked_until_edit:
  assumes "\<not> isAddingNew p" and "\<not> isEditing st"
  shows "row_step p st (InputName s) = None \<and> row_step p st (InputMax v) = None \<and>
         row_step p st ClickSave = None \<and> row_step p st ClickDelete = None \<and>
         row_step p st ClickCancel = None"
  using assms by (simp add: inputs_enabled_def)

theorem row_locked_until_edit_witness:
  "\<not> isAddingNew \<lparr>nameProp = ''Squat'', maxProp = 240, isAddingNew = False\<rparr> \<and>
   \<not> isEditing (row_mount \<lparr>nameProp = ''Squat'', maxProp = 240, isAddingNew = False\<rparr>) \<and>
   row_step \<lparr>nameProp = ''Squat'', maxProp = 240, isAddingNew = False\<rparr>
     (row_mount \<lparr>nameProp = ''Squat'', maxProp = 240, isAddingNew = False\<rparr>) ClickDelete = None"
proof -
  let ?p = "\<lparr>nameProp = ''Squat'', maxProp = 240 :: rat, isAddingNew = False\<rparr>"
  have a: "\<not> isAddingNew ?p" by simp
  have e: "\<not> isEditing (row_mount ?p)" by (simp add: row_mount_def)
  show ?thesis using a e row_locked_until_edit [OF a e, of "''x''" 0] by simp
qed

text \<open>C14: an edit session that is cancelled leaves the row as it was mounted, whatever
  was typed in between, and calls only the (no-op) cancel callback.\<close>

theorem row_cancel_restores:
  assumes "\<not> isAddingNew p" and "list_all is_input_event es"
  shows "row_run p (row_mount p) (ClickEdit # es @ [ClickCancel]) = Some (row_mount p, [CallCancel])"
proof -
  have ed: "isEditing ((row_mount p)\<lparr>isEditing := True\<rparr>)" by simp
  obtain st' where st': "row_run p ((row_mount p)\<lparr>isEditing := True\<rparr>) es = Some (st', [])"
    and "isEditing st'"
    using row_run_inputs_editing [OF assms(2) ed] by blast
  then have "row_step p st' ClickCancel = Some (row_mount p, [CallCancel])"
    by (simp add: row_mount_def)
  then show ?thesis
    using assms(1) st' by (simp add: row_run_append row_mount_def)
qed

theorem row_cancel_restores_witness:
  "\<not> isAddingNew \<lparr>nameProp = ''Squat'', maxProp = 240, isAddingNew = False\<rparr> \<and>
   list_all is_input_event [InputName ''Front Squat'', InputMax 200] \<and>
   row_run \<lparr>nameProp = ''Squat'', maxProp = 240, isAddingNew = False\<rparr>
     (row_mount \<lparr>nameProp = ''Squat'', maxProp = 240, isAddingNew = False\<rparr>)
     [ClickEdit, InputName ''Front Squat'', InputMax 200, ClickCancel] =
   Some (row_mount \<lparr>nameProp = ''Squat'', maxProp = 240, isAddingNew = False\<rparr>, [CallCancel])"
proof -
  let ?p = "\<lparr>nameProp = ''Squat'', maxProp = 240 :: rat, isAddingNew = False\<rparr>"
  have a: "\<not> isAddingNew ?p" by simp
  have i: "list_all is_input_event [InputName ''Front Squat'', InputMax 200]"
    by (simp add: is_input_event_def)
  show ?thesis using a i row_cancel_restores [OF a i] by simp
qed

text \<open>C15: Delete reports the name currently typed into the row, not the lift the row
  shows: after editing the name field of a row, Delete asks to delete the typed name.\<close>

theorem row_delete_reports_edited_name:
  assumes "\<not> isAddingNew p"
  shows "row_run p (row_mount p) [ClickEdit, InputName n, ClickDelete] =
         Some (\<lparr>edit_name = n, edit_max = maxProp p, isEditing = True\<rparr>, [CallDelete n])"
  using assms by (simp add: row_mount_def inputs_enabled_def)

theorem row_delete_reports_edited_name_witness:
  "\<not> isAddingNew \<lparr>nameProp = ''Squat'', maxProp = 240, isAddingNew = False\<rparr> \<and>
   row_run \<lparr>nameProp = ''Squat'', maxProp = 240, isAddingNew = False\<rparr>
     (row_mount \<lparr>nameProp = ''Squat'', maxProp = 240, isAddingNew = False\<rparr>)
     [ClickEdit, InputName ''Deadlift'', ClickDelete] =
   Some (\<lparr>edit_name = ''Deadlift'', edit_max = 240, isEditing = True\<rparr>, [CallDelete ''Deadlift''])"
proof -
  let ?p = "\<lparr>nameProp = ''Squat'', maxProp = 240 :: rat, isAddingNew = False\<rparr>"
  have a: "\<not> isAddingNew ?p" by simp
  show ?thesis using a row_delete_reports_edited_name [OF a, of "''Deadlift''"] by simp
qed

text \<open>C16: the add row never enters edit mode, so it never offers Delete: along any run
  from a state that is not editing, no delete callback is called.\<close>

theorem add_row_never_deletes:
  assumes "isAddingNew p" and "\<not> isEditing st" and "row_run p st es = Some (st', cs)"
  shows "\<not> isEditing st' \<and> list_all (\<lambda>c. \<not> (\<exists>n. c = CallDelete n)) cs"
  using assms(2,3)
proof (induction es arbitrary: st cs)
  case Nil
  then show ?case by simp
next
  case (Cons e es)
  then obtain st1 cs1 cs2 where s1: "row_step p st e = Some (st1, cs1)"
    and r: "row_run p st1 es = Some (st', cs2)" and cs: "cs = cs1 @ cs2"
    by (auto split: option.splits)
  have "\<not> isEditing st1"
    using row_step_not_editing_add_row [OF assms(1) Cons.prems(1) s1] .
  moreover have "list_all (\<lambda>c. \<not> (\<exists>n. c = CallDelete n)) cs1"
    using s1 Cons.prems(1) by (cases e) (auto split: if_splits)
  ultimately show ?case using Cons.IH [OF _ r] cs by simp
qed

theorem add_row_never_deletes_witness:
  "isAddingNew \<lparr>nameProp = [], maxProp = 0, isAddingNew = True\<rparr> \<and>
   \<not> isEditing (row_mount \<lparr>nameProp = [], maxProp = 0, isAddingNew = True\<rparr>) \<and>
   row_run \<lparr>nameProp = [], maxProp = 0, isAddingNew = True\<rparr>
     (row_mount \<lparr>nameProp = [], maxProp = 0, isAddingNew = True\<rparr>) [InputName ''Lunges'', ClickSave] =
   Some (\<lparr>edit_name = ''Lunges'', edit_max = 0, isEditing = False\<rparr>,
         [CallSave \<lparr>lift_name = ''Lunges'', lift_max = 0\<rparr>]) \<and>
   \<not> isEditing \<lparr>edit_name = ''Lunges'', edit_max = 0 :: rat, isEditing = False\<rparr>"
proof -
  let ?p = "\<lparr>nameProp = [], maxProp = 0 :: rat, isAddingNew = True\<rparr>"
  have a: "isAddingNew ?p" by simp
  have e: "\<not> isEditing (row_mount ?p)" by (simp add: row_mount_def)
  have r: "row_run ?p (row_mount ?p) [InputName ''Lunges'', ClickSave] =
     Some (\<lparr>edit_name = ''Lunges'', edit_max = 0, isEditing = False\<rparr>,
           [CallSave \<lparr>lift_name = ''Lunges'', lift_max = 0\<rparr>])"
    by (simp add: row_mount_def inputs_enabled_def)
  show ?thesis using a e r add_row_never_deletes [OF a e r] by simp
qed

text \<open>C17: Save reports what was typed: after Edit and new values for both inputs, Save
  leaves edit mode and calls the save callback with the typed name and 1RM.\<close>

theorem row_save_reports_edits:
  assumes "\<not> isAddingNew p"
  shows "row_run p (row_mount p) [ClickEdit, InputName n, InputMax m, ClickSave] =
         Some (\<lparr>edit_name = n, edit_max = m, isEditing = False\<rparr>,
               [CallSave \<lparr>lift_name = n, lift_max = m\<rparr>])"
  using assms by (simp add: row_mount_def inputs_enabled_def)

theorem row_save_reports_edits_witness:
  "\<not> isAddingNew \<lparr>nameProp = ''Squat'', maxProp = 240, isAddingNew = False\<rparr> \<and>
   row_run \<lparr>nameProp = ''Squat'', maxProp = 240, isAddingNew = False\<rparr>
     (row_mount \<lparr>nameProp = ''Squat'', maxProp = 240, isAddingNew = False\<rparr>)
     [ClickEdit, InputName ''Squat'', InputMax 250, ClickSave] =
   Some (\<lparr>edit_name = ''Squat'', edit_max = 250, isEditing = False\<rparr>,
         [CallSave \<lparr>lift_name = ''Squat'', lift_max = 250\<rparr>])"
proof -
  let ?p = "\<lparr>nameProp = ''Squat'', maxProp = 240 :: rat, isAddingNew = False\<rparr>"
  have a: "\<not> isAddingNew ?p" by simp
  show ?thesis using a row_save_reports_edits [OF a, of "''Squat''" 250] by simp
qed

end
