(* ===== verification/Json.thy ===== *)
theory Json
  imports Js_Object "HOL-Library.Multiset"
begin

text \<open>
  \<open>JSON.stringify\<close> and \<open>JSON.parse\<close> on the values the program stores under the
  \<open>localStorage\<close> key \<open>lifts\<close> (src/src/App.tsx lines 34--36 and 43): an object whose
  own properties are numbers. They are library code, modelled from ECMAScript
  (QuoteJSONString, SerializeJSONObject, Number::toString) and the JSON grammar:
  \<^item> a string is quoted with the escapes for quote, backslash, \<open>b t n f r\<close> and
    \<open>u00hh\<close> (lowercase hex) for the other control characters (\<open>json_quote\<close>);
    the parser \<open>json_string_body\<close> reads every escape of the grammar back;
  \<^item> a number is printed in fixed notation with the fewest decimals that represent
    it (\<open>json_number\<close>); the parser \<open>json_number_parse\<close> reads the whole number
    grammar, fraction and exponent included;
  \<^item> an object is printed as its entries in \<open>Object.entries\<close> order; the parser
    builds the object by CreateDataProperty, so a repeated key keeps its first
    position and its last value.
  Characters are 8-bit (a \<open>u\<close> escape above \<open>00ff\<close> is outside the model).
  Whitespace between tokens is skipped. Valid JSON of another shape (arrays, nested
  values, strings as values) is outside the model and parsed as an error; the program
  never writes such a value.
\<close>

subsection \<open>Strings\<close>

definition hex_char :: "nat \<Rightarrow> char" where
  "hex_char d = (if d < 10 then digit_char d else char_of (87 + d))"

definition hex_value :: "char \<Rightarrow> nat option" where
  "hex_value c =
     (let n = (of_char c :: nat)
      in if 48 \<le> n \<and> n \<le> 57 then Some (n - 48)
         else if 97 \<le> n \<and> n \<le> 102 then Some (n - 87)
         else if 65 \<le> n \<and> n \<le> 70 then Some (n - 55)
         else None)"

definition hex4_value :: "char \<Rightarrow> char \<Rightarrow> char \<Rightarrow> char \<Rightarrow> nat option" where
  "hex4_value a b c d =
     (case (hex_value a, hex_value b, hex_value c, hex_value d) of
        (Some w, Some x, Some y, Some z) \<Rightarrow> Some (((w * 16 + x) * 16 + y) * 16 + z)
      | _ \<Rightarrow> None)"

text \<open>QuoteJSONString, one character at a time.\<close>

definition json_escape :: "char \<Rightarrow> string" where
  "json_escape c =
     (let n = (of_char c :: nat)
      in if n = 8 then [CHR 0x5C, CHR ''b'']
         else if n = 9 then [CHR 0x5C, CHR ''t'']
         else if n = 10 then [CHR 0x5C, CHR ''n'']
         else if n = 12 then [CHR 0x5C, CHR ''f'']
         else if n = 13 then [CHR 0x5C, CHR ''r'']
         else if c = CHR 0x22 then [CHR 0x5C, CHR 0x22]
         else if c = CHR 0x5C then [CHR 0x5C, CHR 0x5C]
         else if n < 32
         then [CHR 0x5C, CHR ''u'', CHR ''0'', CHR ''0'', hex_char (n div 16), hex_char (n mod 16)]
         else [c])"

definition json_quote :: "string \<Rightarrow> string" where
  "json_quote s = CHR 0x22 # concat (map json_escape s) @ [CHR 0x22]"

text \<open>The character a one-letter escape stands for.\<close>

definition simple_escape :: "char \<Rightarrow> char option" where
  "simple_escape e =
     (if e = CHR 0x22 then Some (CHR 0x22)
      else if e = CHR 0x5C then Some (CHR 0x5C)
      else if e = CHR ''/'' then Some (CHR ''/'')
      else if e = CHR ''b'' then Some (char_of (8 :: nat))
      else if e = CHR ''f'' then Some (char_of (12 :: nat))
      else if e = CHR ''n'' then Some (char_of (10 :: nat))
      else if e = CHR ''r'' then Some (char_of (13 :: nat))
      else if e = CHR ''t'' then Some (char_of (9 :: nat))
      else None)"

text \<open>The body of a string literal after its opening quote: the characters up to the
  closing quote, and the input after it.\<close>

fun json_string_body :: "string \<Rightarrow> (string \<times> string) option" where
  "json_string_body [] = None"
| "json_string_body (c # cs) =
     (if c = CHR 0x22 then Some ([], cs)
      else if c = CHR 0x5C then
        (case cs of
           [] \<Rightarrow> None
         | e # cs' \<Rightarrow>
             if e = CHR ''u'' then
               (case cs' of
                  h1 # h2 # h3 # h4 # rest \<Rightarrow>
                    (case hex4_value h1 h2 h3 h4 of
                       Some n \<Rightarrow>
                         if n < 256
                         then map_option (\<lambda>(s, r). (char_of n # s, r)) (json_string_body rest)
                         else None
                     | None \<Rightarrow> None)
                | _ \<Rightarrow> None)
             else
               (case simple_escape e of
                  Some d \<Rightarrow> map_option (\<lambda>(s, r). (d # s, r)) (json_string_body cs')
                | None \<Rightarrow> None))
      else if (of_char c :: nat) < 32 then None
      else map_option (\<lambda>(s, r). (c # s, r)) (json_string_body cs))"

subsubsection \<open>Reading a quoted string back\<close>

lemma char_of_of_char_eq: "of_char c = (n :: nat) \<Longrightarrow> char_of n = c"
  by (metis char_of_char)

lemma hex_value_hex_char: "d < 16 \<Longrightarrow> hex_value (hex_char d) = Some d"
proof -
  assume d: "d < 16"
  show ?thesis
  proof (cases "d < 10")
    case True
    then have "of_char (hex_char d) = (48 + d :: nat)"
      by (simp add: hex_char_def digit_char_def)
    then show ?thesis using True by (simp add: hex_value_def)
  next
    case False
    then have "of_char (hex_char d) = (87 + d :: nat)"
      using d by (simp add: hex_char_def)
    then show ?thesis using False d by (simp add: hex_value_def)
  qed
qed

lemma body_simple_escape:
  "simple_escape e = Some d \<Longrightarrow> e \<noteq> CHR ''u'' \<Longrightarrow>
   json_string_body (CHR 0x5C # e # rest) = map_option (\<lambda>(s, r). (d # s, r)) (json_string_body rest)"
  by simp

lemma body_unicode_escape:
  "hex4_value h1 h2 h3 h4 = Some n \<Longrightarrow> n < 256 \<Longrightarrow>
   json_string_body (CHR 0x5C # CHR ''u'' # h1 # h2 # h3 # h4 # rest) =
     map_option (\<lambda>(s, r). (char_of n # s, r)) (json_string_body rest)"
  by simp

lemma body_plain_char:
  "c \<noteq> CHR 0x22 \<Longrightarrow> c \<noteq> CHR 0x5C \<Longrightarrow> 32 \<le> (of_char c :: nat) \<Longrightarrow>
   json_string_body (c # rest) = map_option (\<lambda>(s, r). (c # s, r)) (json_string_body rest)"
  by simp

text \<open>Each escaped character is read back as itself.\<close>

lemma json_string_body_escape:
  "json_string_body (json_escape c @ rest) = map_option (\<lambda>(s, r). (c # s, r)) (json_string_body rest)"
proof -
  define n where "n = (of_char c :: nat)"
  have cn: "char_of n = c" by (simp add: n_def)
  have q: "c = CHR 0x22 \<longleftrightarrow> n = 34"
    using of_char_eq_iff [of c "CHR 0x22", where ?'a = nat] by (simp add: n_def)
  have b: "c = CHR 0x5C \<longleftrightarrow> n = 92"
    using of_char_eq_iff [of c "CHR 0x5C", where ?'a = nat] by (simp add: n_def)
  consider "n = 8" | "n = 9" | "n = 10" | "n = 12" | "n = 13" | "n = 34" | "n = 92"
    | "n < 32" "n \<notin> {8, 9, 10, 12, 13}" | "32 \<le> n" "n \<notin> {34, 92}"
    by force
  then show ?thesis
  proof cases
    case 1
    then show ?thesis
      using body_simple_escape [of "CHR ''b''" c rest] cn q b
      by (simp add: json_escape_def simple_escape_def n_def [symmetric])
  next
    case 2
    then show ?thesis
      using body_simple_escape [of "CHR ''t''" c rest] cn q b
      by (simp add: json_escape_def simple_escape_def n_def [symmetric])
  next
    case 3
    then show ?thesis
      using body_simple_escape [of "CHR ''n''" c rest] cn q b
      by (simp add: json_escape_def simple_escape_def n_def [symmetric])
  next
    case 4
    then show ?thesis
      using body_simple_escape [of "CHR ''f''" c rest] cn q b
      by (simp add: json_escape_def simple_escape_def n_def [symmetric])
  next
    case 5
    then show ?thesis
      using body_simple_escape [of "CHR ''r''" c rest] cn q b
      by (simp add: json_escape_def simple_escape_def n_def [symmetric])
  next
    case 6
    then show ?thesis
      using body_simple_escape [of "CHR 0x22" c rest] q
      by (simp add: json_escape_def simple_escape_def n_def [symmetric])
  next
    case 7
    then show ?thesis
      using body_simple_escape [of "CHR 0x5C" c rest] b
      by (simp add: json_escape_def simple_escape_def n_def [symmetric])
  next
    case 8
    have h: "hex4_value (CHR ''0'') (CHR ''0'') (hex_char (n div 16)) (hex_char (n mod 16)) = Some n"
      using 8 by (simp add: hex4_value_def hex_value_hex_char) (simp add: hex_value_def)
    have e: "json_escape c =
      [CHR 0x5C, CHR ''u'', CHR ''0'', CHR ''0'', hex_char (n div 16), hex_char (n mod 16)]"
      using 8 q b by (simp add: json_escape_def n_def [symmetric])
    show ?thesis
      using body_unicode_escape [OF h] 8 cn by (simp add: e)
  next
    case 9
    then have e: "json_escape c = [c]"
      using q b by (simp add: json_escape_def n_def [symmetric])
    show ?thesis
      using body_plain_char [of c rest] 9 q b by (simp add: e n_def [symmetric])
  qed
qed

lemma json_string_body_quote:
  "json_string_body (concat (map json_escape s) @ CHR 0x22 # rest) = Some (s, rest)"
  by (induction s) (simp_all add: json_string_body_escape)

subsection \<open>Numbers\<close>

text \<open>The multiplicity of the factor \<open>p\<close> in \<open>n\<close>.\<close>

function factor_count :: "nat \<Rightarrow> nat \<Rightarrow> nat" where
  "factor_count p n = (if 1 < p \<and> 0 < n \<and> p dvd n then Suc (factor_count p (n div p)) else 0)"
  by pat_completeness auto
termination
  by (relation "measure (\<lambda>(p, n). n)") auto

declare factor_count.simps [simp del]

text \<open>A finite double is a rational whose reduced denominator is \<open>2\<^sup>a 5\<^sup>b\<close>; it has a
  finite decimal expansion with \<open>max a b\<close> places, the fewest that represent it.\<close>

definition decimal_places :: "js_number \<Rightarrow> nat" where
  "decimal_places q =
     (let d = nat (snd (quotient_of q)) in max (factor_count 2 d) (factor_count 5 d))"

definition is_decimal :: "js_number \<Rightarrow> bool" where
  "is_decimal q \<longleftrightarrow> snd (quotient_of q) dvd 10 ^ decimal_places q"

text \<open>Number::toString in fixed notation: \<open>toFixed\<close> at the number's own count of
  decimals (exponent notation, used from \<open>10\<^sup>2\<^sup>1\<close> up and below \<open>10\<^sup>-\<^sup>6\<close>, is outside
  the model).\<close>

definition json_number :: "js_number \<Rightarrow> string" where
  "json_number q = toFixed (decimal_places q) q"

definition parse_frac :: "string \<Rightarrow> (string \<times> string) option" where
  "parse_frac s =
     (case s of
        c # r \<Rightarrow>
          if c = CHR ''.'' then
            (let f = takeWhile is_digit r in if f = [] then None else Some (f, dropWhile is_digit r))
          else Some ([], s)
      | [] \<Rightarrow> Some ([], []))"

definition parse_sign :: "string \<Rightarrow> int \<times> string" where
  "parse_sign s =
     (case s of
        d # r \<Rightarrow> if d = CHR ''+'' then (1, r) else if d = CHR ''-'' then (-1, r) else (1, s)
      | [] \<Rightarrow> (1, []))"

definition parse_exp :: "string \<Rightarrow> (int \<times> string) option" where
  "parse_exp s =
     (case s of
        c # r \<Rightarrow>
          if c = CHR ''e'' \<or> c = CHR ''E'' then
            (let (sg, r') = parse_sign r; x = takeWhile is_digit r'
             in if x = [] then None else Some (sg * int (digits_value x), dropWhile is_digit r'))
          else Some (0, s)
      | [] \<Rightarrow> Some (0, []))"

definition scale10 :: "nat \<Rightarrow> int \<Rightarrow> js_number" where
  "scale10 n x = (if 0 \<le> x then of_nat n * 10 ^ nat x else of_nat n / 10 ^ nat (- x))"

definition json_number_parse :: "string \<Rightarrow> (js_number \<times> string) option" where
  "json_number_parse s =
     (let (neg, s1) = (case s of c # r \<Rightarrow> if c = CHR ''-'' then (True, r) else (False, s) | [] \<Rightarrow> (False, []));
          ip = takeWhile is_digit s1;
          s2 = dropWhile is_digit s1
      in if ip = [] \<or> (hd ip = CHR ''0'' \<and> 1 < length ip) then None
         else
           (case parse_frac s2 of
              None \<Rightarrow> None
            | Some (fp, s3) \<Rightarrow>
                (case parse_exp s3 of
                   None \<Rightarrow> None
                 | Some (x, s4) \<Rightarrow>
                     (let v = scale10 (digits_value (ip @ fp)) (x - int (length fp))
                      in Some (if neg then - v else v, s4)))))"

subsubsection \<open>Reading a printed number back\<close>

text \<open>What may follow a number in a JSON text without extending it.\<close>

definition number_follows :: "string \<Rightarrow> bool" where
  "number_follows r \<longleftrightarrow>
     r = [] \<or> (\<not> is_digit (hd r) \<and> hd r \<noteq> CHR ''.'' \<and> hd r \<noteq> CHR ''e'' \<and> hd r \<noteq> CHR ''E'')"

lemma is_digit_not_sign: "is_digit c \<Longrightarrow> c \<noteq> CHR ''-''"
  by (auto simp: is_digit_def)

lemma not_is_digit_point [simp]: "\<not> is_digit (CHR ''.'')"
  by (simp add: is_digit_def)

lemma takeWhile_digits_append:
  assumes "list_all is_digit xs" and "rest = [] \<or> \<not> is_digit (hd rest)"
  shows "takeWhile is_digit (xs @ rest) = xs \<and> dropWhile is_digit (xs @ rest) = rest"
proof -
  have "takeWhile is_digit rest = [] \<and> dropWhile is_digit rest = rest"
    using assms(2) by (cases rest) auto
  then show ?thesis using assms(1) by (simp add: list_all_iff takeWhile_append2 dropWhile_append2)
qed

lemma parse_frac_follows: "number_follows rest \<Longrightarrow> parse_frac rest = Some ([], rest)"
  by (cases rest) (auto simp: parse_frac_def number_follows_def)

lemma parse_exp_follows: "number_follows rest \<Longrightarrow> parse_exp rest = Some (0, rest)"
  by (cases rest) (auto simp: parse_exp_def number_follows_def)

lemma parse_frac_digits:
  assumes "fp \<noteq> []" and "list_all is_digit fp" and "number_follows rest"
  shows "parse_frac (CHR ''.'' # fp @ rest) = Some (fp, rest)"
proof -
  have "rest = [] \<or> \<not> is_digit (hd rest)" using assms(3) by (auto simp: number_follows_def)
  then show ?thesis
    using takeWhile_digits_append [OF assms(2)] assms(1) by (simp add: parse_frac_def)
qed

text \<open>A decimal rational times ten to its count of decimals is a natural number (up
  to sign), so \<open>toFixed\<close> rounds nothing when it prints it.\<close>

lemma decimal_scaled:
  assumes "is_decimal q"
  shows "\<bar>q\<bar> * 10 ^ decimal_places q = of_nat (nat \<lfloor>\<bar>q\<bar> * 10 ^ decimal_places q + 1 / 2\<rfloor>)"
proof -
  define e where "e = decimal_places q"
  obtain a d where qd: "quotient_of q = (a, d)" by (cases "quotient_of q")
  have d0: "0 < d" using quotient_of_denom_pos [OF qd] .
  have q: "q = of_int a / of_int d" using quotient_of_div [OF qd] .
  obtain c where c: "10 ^ e = d * c"
    using assms qd by (auto simp: is_decimal_def e_def)
  have c': "(10 :: rat) ^ e = of_int (d * c)"
    by (metis c of_int_numeral of_int_power)
  have eq: "\<bar>q\<bar> * 10 ^ e = of_int (\<bar>a\<bar> * c)"
    using d0 by (simp add: q c' abs_divide)
  have "0 \<le> c"
  proof -
    have "0 \<le> (10 :: int) ^ e" by simp
    then show ?thesis using c d0 by (simp add: zero_le_mult_iff)
  qed
  then have nn: "0 \<le> \<bar>a\<bar> * c" by simp
  have "\<lfloor>of_int (\<bar>a\<bar> * c) + 1 / 2 :: rat\<rfloor> = \<bar>a\<bar> * c"
    by (rule floor_unique) simp_all
  then show ?thesis using nn by (simp add: eq flip: e_def)
qed

lemma scale10_neg: "scale10 n (- int e) = of_nat n / 10 ^ e"
  by (cases "e = 0") (simp_all add: scale10_def)

lemma json_number_parse_fixed:
  assumes ip: "ip \<noteq> []" "list_all is_digit ip" "hd ip = CHR ''0'' \<longrightarrow> length ip = 1"
    and fp: "list_all is_digit fp" and fol: "number_follows rest"
  shows "json_number_parse ((if fp = [] then ip else ip @ CHR ''.'' # fp) @ rest) =
         Some (scale10 (digits_value (ip @ fp)) (- int (length fp)), rest)"
proof -
  have hd_ne: "hd ip \<noteq> CHR ''-''"
    using ip(1,2) is_digit_not_sign by (cases ip) auto
  have rd: "rest = [] \<or> \<not> is_digit (hd rest)" using fol by (auto simp: number_follows_def)
  show ?thesis
  proof (cases "fp = []")
    case True
    have tw: "takeWhile is_digit (ip @ rest) = ip \<and> dropWhile is_digit (ip @ rest) = rest"
      by (rule takeWhile_digits_append [OF ip(2) rd])
    show ?thesis
      using True ip(1,3) hd_ne tw parse_frac_follows [OF fol] parse_exp_follows [OF fol]
      by (cases ip) (auto simp: json_number_parse_def)
  next
    case False
    have tw: "takeWhile is_digit (ip @ CHR ''.'' # fp @ rest) = ip \<and>
              dropWhile is_digit (ip @ CHR ''.'' # fp @ rest) = CHR ''.'' # fp @ rest"
      by (rule takeWhile_digits_append [OF ip(2)]) simp
    show ?thesis
      using False ip(1,3) hd_ne tw parse_frac_digits [OF False fp fol] parse_exp_follows [OF fol]
      by (cases ip) (auto simp: json_number_parse_def)
  qed
qed

lemma json_number_parse_minus:
  assumes "s1 \<noteq> []" and "is_digit (hd s1)"
  shows "json_number_parse (CHR ''-'' # s1) = map_option (\<lambda>(v, r). (- v, r)) (json_number_parse s1)"
proof -
  have "hd s1 \<noteq> CHR ''-''" using assms(2) by (rule is_digit_not_sign)
  then show ?thesis
    using assms(1) by (cases s1) (auto simp: json_number_parse_def Let_def split: option.splits prod.splits)
qed

text \<open>The round trip of a number: a finite decimal printed by \<open>json_number\<close> and read
  by \<open>json_number_parse\<close> is itself, and the parser stops right after it.\<close>

lemma json_number_roundtrip:
  assumes dec: "is_decimal q" and fol: "number_follows rest"
  shows "json_number_parse (json_number q @ rest) = Some (q, rest)"
proof -
  define e where "e = decimal_places q"
  define N where "N = nat \<lfloor>\<bar>q\<bar> * 10 ^ e + 1 / 2\<rfloor>"
  have "\<bar>q\<bar> * 10 ^ e = of_nat N"
    using decimal_scaled [OF dec] by (simp only: N_def e_def)
  then have qN: "\<bar>q\<bar> = of_nat N / 10 ^ e" by (simp add: field_simps)
  obtain ip fp where js: "json_number q = (if q < 0 then ''-'' else []) @
                             (if fp = [] then ip else ip @ CHR ''.'' # fp)"
    and ip: "ip \<noteq> []" "list_all is_digit ip" "hd ip = CHR ''0'' \<longrightarrow> length ip = 1"
    and fp: "list_all is_digit fp" "length fp = e" and val: "digits_value (ip @ fp) = N"
  proof (cases "e = 0")
    case True
    have j: "json_number q = (if q < 0 then ''-'' else []) @ nat_digits N"
      using True by (simp add: json_number_def toFixed_def N_def e_def Let_def)
    have h: "hd (nat_digits N) = CHR ''0'' \<longrightarrow> length (nat_digits N) = 1"
      using nat_digits_hd [of N] by (cases "N = 0") (auto simp: nat_digits_zero)
    show ?thesis
      by (rule that [where ip = "nat_digits N" and fp = "[]"])
        (simp_all add: j h True list_all_digits_nat_digits digits_value_nat_digits)
  next
    case False
    then obtain ip fp where tf: "toFixed e q = (if q < 0 then ''-'' else []) @ ip @ CHR ''.'' # fp"
      and i1: "ip \<noteq> []" and i2: "list_all is_digit ip" and f1: "list_all is_digit fp"
      and f2: "length fp = e" and i3: "hd ip = CHR ''0'' \<longrightarrow> length ip = 1"
      and v: "digits_value (ip @ fp) = N"
      using toFixed_parts [of e q] by (auto simp: N_def)
    have "fp \<noteq> []" using f2 False by auto
    then show ?thesis
      by (rule_tac that [where ip = ip and fp = fp])
        (simp_all add: json_number_def tf i1 i2 i3 f1 f2 v flip: e_def)
  qed
  have body: "json_number_parse ((if fp = [] then ip else ip @ CHR ''.'' # fp) @ rest) = Some (\<bar>q\<bar>, rest)"
    using json_number_parse_fixed [OF ip fp(1) fol] val fp(2) qN by (simp add: scale10_neg)
  show ?thesis
  proof (cases "q < 0")
    case True
    have "(if fp = [] then ip else ip @ CHR ''.'' # fp) @ rest \<noteq> []" using ip(1) by simp
    moreover have "is_digit (hd ((if fp = [] then ip else ip @ CHR ''.'' # fp) @ rest))"
      using ip(1,2) by (cases ip) auto
    ultimately show ?thesis
      using True js body json_number_parse_minus by simp
  next
    case False
    then show ?thesis using js body by simp
  qed
qed

subsection \<open>Objects\<close>

definition json_member :: "string \<times> js_number \<Rightarrow> string" where
  "json_member kv = json_quote (fst kv) @ CHR '':'' # json_number (snd kv)"

fun json_members :: "(string \<times> js_number) list \<Rightarrow> string" where
  "json_members [] = []"
| "json_members [kv] = json_member kv"
| "json_members (kv # kvs) = json_member kv @ CHR '','' # json_members kvs"

text \<open>SerializeJSONObject: the members in the order of the object's own keys.\<close>

definition JSON_stringify :: "js_object \<Rightarrow> string" where
  "JSON_stringify obj = CHR ''{'' # json_members (js_entries obj) @ [CHR ''}'']"

definition is_json_ws :: "char \<Rightarrow> bool" where
  "is_json_ws c \<longleftrightarrow> c = CHR '' '' \<or> (of_char c :: nat) \<in> {9, 10, 13}"

definition skip_ws :: "string \<Rightarrow> string" where
  "skip_ws s = dropWhile is_json_ws s"

definition json_member_parse :: "string \<Rightarrow> ((string \<times> js_number) \<times> string) option" where
  "json_member_parse s =
     (case skip_ws s of
        c # r \<Rightarrow>
          if c = CHR 0x22 then
            (case json_string_body r of
               None \<Rightarrow> None
             | Some (k, r1) \<Rightarrow>
                 (case skip_ws r1 of
                    d # r2 \<Rightarrow>
                      if d = CHR '':'' then
                        (case json_number_parse (skip_ws r2) of
                           None \<Rightarrow> None
                         | Some (v, r3) \<Rightarrow> Some ((k, v), r3))
                      else None
                  | [] \<Rightarrow> None))
          else None
      | [] \<Rightarrow> None)"

lemma json_string_body_shorter:
  "json_string_body s = Some (x, r) \<Longrightarrow> length r < length s"
proof (induction s arbitrary: x rule: json_string_body.induct)
  case 1
  then show ?case by simp
next
  case (2 c cs)
  then show ?case
    by (auto split: if_splits list.splits option.splits) fastforce+
qed

lemma parse_frac_shorter:
  assumes "parse_frac s = Some (f, r)"
  shows "length r \<le> length s"
proof (cases s)
  case Nil
  then show ?thesis using assms by (simp add: parse_frac_def)
next
  case (Cons c t)
  show ?thesis
  proof (cases "c = CHR ''.''")
    case True
    then have "r = dropWhile is_digit t"
      using assms Cons by (auto simp: parse_frac_def Let_def split: if_splits)
    then show ?thesis using Cons length_dropWhile_le [of is_digit t] by simp
  next
    case False
    then show ?thesis using assms Cons by (simp add: parse_frac_def)
  qed
qed

lemma parse_sign_shorter: "length (snd (parse_sign s)) \<le> length s"
  by (cases s) (simp_all add: parse_sign_def)

lemma parse_exp_shorter:
  assumes pe: "parse_exp s = Some (x, r)"
  shows "length r \<le> length s"
proof (cases s)
  case Nil
  then show ?thesis using pe by (simp add: parse_exp_def)
next
  case (Cons c t)
  show ?thesis
  proof (cases "c = CHR ''e'' \<or> c = CHR ''E''")
    case True
    obtain sg t' where st: "parse_sign t = (sg, t')" by (cases "parse_sign t")
    have "length t' \<le> length t" using parse_sign_shorter [of t] st by simp
    moreover have "r = dropWhile is_digit t'"
      using pe Cons True st by (auto simp: parse_exp_def Let_def split: if_splits)
    moreover have "length (dropWhile is_digit t') \<le> length t'" by (rule length_dropWhile_le)
    ultimately show ?thesis using Cons by simp
  next
    case False
    then show ?thesis using pe Cons by (simp add: parse_exp_def)
  qed
qed

lemma json_number_parse_shorter:
  assumes "json_number_parse s = Some (v, r)"
  shows "length r \<le> length s"
proof -
  obtain neg s1 where ns: "(case s of c # t \<Rightarrow> if c = CHR ''-'' then (True, t) else (False, s)
                              | [] \<Rightarrow> (False, [])) = (neg, s1)"
    by (metis prod.exhaust)
  have l1: "length s1 \<le> length s" using ns by (auto split: list.splits if_splits)
  obtain fp s3 x where pf: "parse_frac (dropWhile is_digit s1) = Some (fp, s3)"
    and pe: "parse_exp s3 = Some (x, r)"
    using assms ns by (auto simp: json_number_parse_def Let_def split: if_splits option.splits prod.splits)
  have "length r \<le> length s3" by (rule parse_exp_shorter [OF pe])
  also have "\<dots> \<le> length (dropWhile is_digit s1)" by (rule parse_frac_shorter [OF pf])
  also have "\<dots> \<le> length s1" by (rule length_dropWhile_le)
  finally show ?thesis using l1 by simp
qed

lemma skip_ws_shorter: "length (skip_ws s) \<le> length s"
  by (simp add: skip_ws_def length_dropWhile_le)

lemma skip_ws_Cons_shorter: "skip_ws r = c # r' \<Longrightarrow> length r' < length r"
  using skip_ws_shorter [of r] by simp

lemma json_member_parse_shorter:
  assumes "json_member_parse s = Some (kv, r)"
  shows "length r < length s"
proof -
  obtain c t where st: "skip_ws s = c # t"
    using assms by (auto simp: json_member_parse_def split: list.splits)
  obtain k r1 d r2 v where b: "json_string_body t = Some (k, r1)" and w: "skip_ws r1 = d # r2"
    and n: "json_number_parse (skip_ws r2) = Some (v, r)"
    using assms st by (auto simp: json_member_parse_def split: if_splits option.splits list.splits)
  have "length r \<le> length (skip_ws r2)" by (rule json_number_parse_shorter [OF n])
  also have "\<dots> \<le> length r2" by (rule skip_ws_shorter)
  also have "\<dots> < length r1 + 1" using skip_ws_shorter [of r1] w by simp
  also have "\<dots> \<le> length t" using json_string_body_shorter [OF b] by simp
  also have "\<dots> < length s" using skip_ws_shorter [of s] st by simp
  finally show ?thesis .
qed

text \<open>The members of an object after its opening brace, each stored with
  CreateDataProperty (\<open>AList.update\<close>), up to the closing brace.\<close>

function json_members_parse :: "js_object \<Rightarrow> string \<Rightarrow> (js_object \<times> string) option" where
  "json_members_parse acc s =
     (case json_member_parse s of
        None \<Rightarrow> None
      | Some ((k, v), r) \<Rightarrow>
          (case skip_ws r of
             c # r' \<Rightarrow>
               if c = CHR '','' then json_members_parse (AList.update k v acc) r'
               else if c = CHR ''}'' then Some (AList.update k v acc, r')
               else None
           | [] \<Rightarrow> None))"
  by pat_completeness auto
termination
  by (relation "measure (\<lambda>(acc, s). length s)")
     (auto dest!: json_member_parse_shorter skip_ws_Cons_shorter)

definition json_syntax_error :: js_error where
  "json_syntax_error = SyntaxError ''Unexpected token in JSON''"

definition JSON_parse :: "string \<Rightarrow> js_error + js_object" where
  "JSON_parse s =
     (case skip_ws s of
        c # r \<Rightarrow>
          if c = CHR ''{'' then
            (case skip_ws r of
               [] \<Rightarrow> Inl json_syntax_error
             | d # r' \<Rightarrow>
                 if d = CHR ''}'' then (if skip_ws r' = [] then Inr [] else Inl json_syntax_error)
                 else
                   (case json_members_parse [] r of
                      Some (obj, rest) \<Rightarrow> if skip_ws rest = [] then Inr obj else Inl json_syntax_error
                    | None \<Rightarrow> Inl json_syntax_error))
          else Inl json_syntax_error
      | [] \<Rightarrow> Inl json_syntax_error)"

declare json_members_parse.simps [simp del]

subsection \<open>Round trip\<close>

lemma toFixed_head: "\<exists>c r. toFixed f x = c # r \<and> (c = CHR ''-'' \<or> is_digit c)"
proof (cases "x < 0")
  case True
  then show ?thesis by (simp add: toFixed_def Let_def)
next
  case neg: False
  show ?thesis
  proof (cases "f = 0")
    case True
    define m where "m = nat_digits (nat \<lfloor>\<bar>x\<bar> * 10 ^ f + 1 / 2\<rfloor>)"
    have "toFixed f x = m" using True neg by (simp add: toFixed_def m_def)
    moreover have "m \<noteq> []" "list_all is_digit m" by (simp_all add: m_def list_all_digits_nat_digits)
    ultimately show ?thesis by (cases m) auto
  next
    case False
    then obtain ip fp where "toFixed f x = ip @ CHR ''.'' # fp" "ip \<noteq> []" "list_all is_digit ip"
      using toFixed_parts [of f x] neg by auto
    then show ?thesis by (cases ip) auto
  qed
qed

lemma is_digit_not_ws: "is_digit c \<Longrightarrow> \<not> is_json_ws c"
  by (auto simp: is_digit_def is_json_ws_def)

lemma skip_ws_json_number [simp]: "skip_ws (json_number q @ rest) = json_number q @ rest"
  using toFixed_head [of "decimal_places q" q] is_digit_not_ws
  by (auto simp: json_number_def skip_ws_def is_json_ws_def)

lemma skip_ws_punct [simp]:
  "skip_ws (CHR 0x22 # s) = CHR 0x22 # s" "skip_ws (CHR '':'' # s) = CHR '':'' # s"
  "skip_ws (CHR '','' # s) = CHR '','' # s" "skip_ws (CHR ''{'' # s) = CHR ''{'' # s"
  "skip_ws (CHR ''}'' # s) = CHR ''}'' # s" "skip_ws [] = []"
  by (simp_all add: skip_ws_def is_json_ws_def)

lemma json_member_roundtrip:
  assumes "is_decimal v" and "number_follows rest"
  shows "json_member_parse (json_member (k, v) @ rest) = Some ((k, v), rest)"
proof -
  have s: "json_member (k, v) @ rest =
           CHR 0x22 # concat (map json_escape k) @ CHR 0x22 # (CHR '':'' # json_number v @ rest)"
    by (simp add: json_member_def json_quote_def)
  show ?thesis
    unfolding s
    using json_string_body_quote [of k "CHR '':'' # json_number v @ rest"] json_number_roundtrip [OF assms]
    by (simp add: json_member_parse_def)
qed

lemma number_follows_punct [simp]:
  "number_follows (CHR ''}'' # r)" "number_follows (CHR '','' # r)"
  by (simp_all add: number_follows_def is_digit_def)

abbreviation create_props :: "js_object \<Rightarrow> (string \<times> js_number) list \<Rightarrow> js_object" where
  "create_props acc kvs \<equiv> foldl (\<lambda>acc (k, v). AList.update k v acc) acc kvs"

lemma json_members_roundtrip:
  "kvs \<noteq> [] \<Longrightarrow> \<forall>(k, v) \<in> set kvs. is_decimal v \<Longrightarrow>
   json_members_parse acc (json_members kvs @ CHR ''}'' # rest) = Some (create_props acc kvs, rest)"
proof (induction kvs arbitrary: acc rule: json_members.induct)
  case 1
  then show ?case by simp
next
  case (2 kv)
  obtain k v where kv: "kv = (k, v)" by fastforce
  then have "json_member_parse (json_member kv @ CHR ''}'' # rest) = Some ((k, v), CHR ''}'' # rest)"
    using 2 json_member_roundtrip by simp
  then show ?case
    by (subst json_members_parse.simps) (simp add: kv)
next
  case (3 kv kv' kvs)
  obtain k v where kv: "kv = (k, v)" by fastforce
  let ?t = "json_members (kv' # kvs) @ CHR ''}'' # rest"
  have "json_member_parse (json_member kv @ CHR '','' # ?t) = Some ((k, v), CHR '','' # ?t)"
    using 3(3) json_member_roundtrip kv by simp
  then show ?case
    using "3.IH" [of "AList.update k v acc"] "3.prems"(2)
    by (subst json_members_parse.simps) (simp add: kv)
qed

lemma update_fresh: "k \<notin> fst ` set al \<Longrightarrow> AList.update k v al = al @ [(k, v)]"
  by (induction al) auto

lemma create_props_fresh:
  "distinct (map fst kvs) \<Longrightarrow> fst ` set kvs \<inter> fst ` set acc = {} \<Longrightarrow> create_props acc kvs = acc @ kvs"
proof (induction kvs arbitrary: acc)
  case Nil
  then show ?case by simp
next
  case (Cons kv kvs)
  obtain k v where kv: "kv = (k, v)" by fastforce
  have "AList.update k v acc = acc @ [(k, v)]"
    using Cons.prems kv by (intro update_fresh) auto
  moreover have "create_props (acc @ [(k, v)]) kvs = acc @ [(k, v)] @ kvs"
    using Cons.prems kv by (subst Cons.IH) auto
  ultimately show ?case by (simp add: kv)
qed

lemma mset_js_entries: "mset (js_entries obj) = mset obj"
  by (simp add: js_entries_def)

lemma set_js_entries [simp]: "set (js_entries obj) = set obj"
  by (rule mset_eq_setD [OF mset_js_entries])

lemma obj_wf_js_entries [simp]: "obj_wf (js_entries obj) \<longleftrightarrow> obj_wf obj"
  unfolding obj_wf_def
  by (rule mset_eq_imp_distinct_iff) (simp only: mset_map mset_js_entries)

lemma obj_map_js_entries: "obj_wf obj \<Longrightarrow> obj_map (js_entries obj) = obj_map obj"
  using map_of_inject_set [of "js_entries obj" obj] obj_wf_js_entries [of obj]
  by (simp add: obj_wf_def)

lemma json_members_quote: "kvs \<noteq> [] \<Longrightarrow> \<exists>t. json_members kvs = CHR 0x22 # t"
  by (cases kvs rule: json_members.cases) (auto simp: json_member_def json_quote_def)

text \<open>\<open>JSON.parse(JSON.stringify(o))\<close> is the object with \<open>o\<close>'s properties, in the
  order \<open>Object.entries\<close> lists them, for every object with unique keys whose values
  are finite decimals.\<close>

lemma JSON_roundtrip:
  assumes wf: "obj_wf obj" and dec: "\<forall>(k, v) \<in> set obj. is_decimal v"
  shows "JSON_parse (JSON_stringify obj) = Inr (js_entries obj) \<and>
         obj_map (js_entries obj) = obj_map obj"
proof -
  define es where "es = js_entries obj"
  have es_wf: "distinct (map fst es)" using wf by (simp add: es_def flip: obj_wf_def)
  have es_dec: "\<forall>(k, v) \<in> set es. is_decimal v" using dec by (simp add: es_def)
  have "JSON_parse (CHR ''{'' # json_members es @ [CHR ''}'']) = Inr es"
  proof (cases "es = []")
    case True
    then show ?thesis by (simp add: JSON_parse_def)
  next
    case False
    obtain t where t: "json_members es = CHR 0x22 # t" using json_members_quote [OF False] by blast
    have "json_members_parse [] (json_members es @ [CHR ''}'']) = Some (es, [])"
      using json_members_roundtrip [OF False es_dec, of "[]" "[]"] create_props_fresh [OF es_wf, of "[]"]
      by simp
    then show ?thesis using t by (simp add: JSON_parse_def)
  qed
  then show ?thesis using obj_map_js_entries [OF wf] by (simp add: JSON_stringify_def es_def)
qed

lemma JSON_roundtrip_example:
  "JSON_parse (JSON_stringify [(''Squat'', 240), (''1'', 105 / 2)]) =
   Inr [(''1'', 105 / 2), (''Squat'', 240)]"
proof -
  have wf: "obj_wf [(''Squat'', 240 :: rat), (''1'', 105 / 2)]" by (simp add: obj_wf_def)
  have dec: "is_decimal (105 / 2 :: rat) \<and> is_decimal (240 :: rat)" by code_simp
  have e: "js_entries [(''Squat'', 240), (''1'', 105 / 2)] = [(''1'', 105 / 2), (''Squat'', 240)]"
    by (simp add: js_entries_def is_array_index_def is_digit_def digits_value_def digit_value_def)
  show ?thesis using JSON_roundtrip [of "[(''Squat'', 240), (''1'', 105 / 2)]"] wf dec e by simp
qed

end
