(* ===== verification/Provider.thy ===== *)
theory Provider
  imports Lifts_Table Json
begin

text \<open>
  \<open>LiftsContextProvider\<close> (src/src/App.tsx lines 30--47). Its state is the lift
  object, initially \<open>{}\<close> (line 31). \<open>localStorage\<close> is modelled by the one entry the
  program uses, the value under the key \<open>'lifts'\<close> (\<open>string option\<close>, \<open>None\<close> for
  \<open>null\<close>). On mount the first effect (lines 33--40) reads the entry and loads it with
  \<open>JSON.parse\<close> when it is a non-empty string, or seeds \<open>defaultLifts\<close> otherwise
  (\<open>load_lifts\<close>); a parse error is thrown out of the effect and is the \<open>Inl\<close> branch.
  The second effect (lines 42--44) writes \<open>JSON.stringify(lifts)\<close> after every render
  in which \<open>lifts\<close> changed (\<open>persist_lifts\<close>): on mount it runs once with the initial
  \<open>{}\<close> and once more after the loaded object is rendered (\<open>provider_mount\<close> lists
  the writes in order).
\<close>

definition load_lifts :: "string option \<Rightarrow> js_error + js_object" where
  "load_lifts liftsLocalStorage =
     (case liftsLocalStorage of
        Some str \<Rightarrow> if str \<noteq> [] then JSON_parse str else Inr defaultLifts
      | None \<Rightarrow> Inr defaultLifts)"

definition persist_lifts :: "js_object \<Rightarrow> string option" where
  "persist_lifts lifts = Some (JSON_stringify lifts)"

definition provider_mount :: "string option \<Rightarrow> js_error + (js_object \<times> string option list)" where
  "provider_mount stored =
     (case load_lifts stored of
        Inl e \<Rightarrow> Inl e
      | Inr lifts \<Rightarrow> Inr (lifts, [persist_lifts [], persist_lifts lifts]))"

text \<open>Values the lift object may hold: finite decimals, which \<open>JSON.stringify\<close> prints
  and \<open>JSON.parse\<close> reads back exactly.\<close>

definition decimal_values :: "js_object \<Rightarrow> bool" where
  "decimal_values obj \<longleftrightarrow> (\<forall>(k, v) \<in> set obj. is_decimal v)"

subsection \<open>Object.entries and serialisation\<close>

lemma js_entries_idem [simp]: "js_entries (js_entries obj) = js_entries obj"
proof -
  let ?P = "\<lambda>(k :: string, _ :: js_number). is_array_index k"
  let ?f = "\<lambda>(k :: string, _ :: js_number). digits_value k"
  let ?Q = "\<lambda>(k :: string, _ :: js_number). \<not> is_array_index k"
  let ?A = "sort_key ?f (filter ?P obj)" and ?B = "filter ?Q obj"
  have a: "filter ?P ?A = ?A" and b: "filter ?P ?B = []"
    by (auto simp: filter_id_conv filter_empty_conv)
  have c: "filter ?Q ?A = []" and d: "filter ?Q ?B = ?B"
    by (auto simp: filter_id_conv filter_empty_conv)
  have s: "sort_key ?f ?A = ?A" by (rule sort_key_id_if_sorted) simp
  show ?thesis
    unfolding js_entries_def [of "js_entries obj"]
    by (simp only: js_entries_def [of obj] filter_append a b c d s append_Nil2 append_Nil)
qed

lemma JSON_stringify_js_entries [simp]: "JSON_stringify (js_entries obj) = JSON_stringify obj"
  by (simp add: JSON_stringify_def)

lemma JSON_stringify_not_Nil [simp]: "JSON_stringify obj \<noteq> []"
  by (simp add: JSON_stringify_def)

lemma JSON_stringify_empty: "JSON_stringify [] = ''{}''"
  by (simp add: JSON_stringify_def js_entries_def)

lemma is_decimal_of_int [simp]: "is_decimal (of_int n)"
  by (simp add: is_decimal_def)

lemma is_decimal_numeral [simp]: "is_decimal (numeral n)"
  using is_decimal_of_int [of "numeral n"] by simp

lemma is_decimal_zero [simp]: "is_decimal 0"
  using is_decimal_of_int [of 0] by simp

lemma decimal_values_defaultLifts: "decimal_values defaultLifts"
  by (simp add: decimal_values_def defaultLifts_def)

lemma load_lifts_stored:
  "obj_wf obj \<Longrightarrow> decimal_values obj \<Longrightarrow> load_lifts (persist_lifts obj) = Inr (js_entries obj)"
  using JSON_roundtrip [of obj] by (simp add: load_lifts_def persist_lifts_def decimal_values_def)

lemma persist_lifts_empty: "persist_lifts [] = Some ''{}''"
  by (simp add: persist_lifts_def JSON_stringify_empty)

subsection \<open>Properties of the provider\<close>

text \<open>C18. A reload after a save restores the lifts: mounting the provider on the
  string the save effect wrote for a well-formed lift object with decimal values
  loads the same name-to-1RM map (its properties in \<open>Object.entries\<close> order), and
  the two writes of the mount are \<open>{}\<close> and then that same string again.\<close>

theorem provider_reload_roundtrip:
  assumes "obj_wf obj" and "decimal_values obj"
  shows "provider_mount (persist_lifts obj) =
           Inr (js_entries obj, [Some ''{}'', persist_lifts obj]) \<and>
         obj_map (js_entries obj) = obj_map obj"
  using load_lifts_stored [OF assms] obj_map_js_entries [OF assms(1)]
  by (simp add: provider_mount_def persist_lifts_empty) (simp add: persist_lifts_def)

theorem provider_reload_roundtrip_witness:
  "provider_mount (persist_lifts [(''Squat'', 240), (''1'', 105 / 2)]) =
     Inr ([(''1'', 105 / 2), (''Squat'', 240)], [Some ''{}'', persist_lifts [(''Squat'', 240), (''1'', 105 / 2)]])"
proof -
  have wf: "obj_wf [(''Squat'', 240 :: rat), (''1'', 105 / 2)]" by (simp add: obj_wf_def)
  have dec: "decimal_values [(''Squat'', 240 :: rat), (''1'', 105 / 2)]"
  proof -
    have "is_decimal (105 / 2 :: rat)" by code_simp
    then show ?thesis by (simp add: decimal_values_def)
  qed
  have e: "js_entries [(''Squat'', 240), (''1'', 105 / 2)] = [(''1'', 105 / 2), (''Squat'', 240)]"
    by (simp add: js_entries_def is_array_index_def is_digit_def digits_value_def digit_value_def)
  show ?thesis using provider_reload_roundtrip [OF wf dec] e by simp
qed

end
