(* ===== verification/Program.thy ===== *)
theory Program
  imports Js_Number
begin

text \<open>
  The program generator: \<open>ProgramTableRow\<close> of src/src/App.tsx (lines 227--248). A row
  of the table is computed from a lift's 1RM \<open>max\<close> (the variable \<open>m\<close> here, as \<open>max\<close> is a HOL constant) and the selected \<open>week\<close>: the
  week's entry of the constant table \<open>schemeByWeek\<close> gives sets, reps and the load
  percentage; the working weight is the load rounded up to a multiple of 2.5
  (\<open>working_weight\<close>); the volume and the displayed percentage are printed with
  \<open>toFixed\<close>. Destructuring \<open>schemeByWeek[week]\<close> for a week outside \<open>0..3\<close> throws a
  \<open>TypeError\<close>, the \<open>Inl\<close> branch of the model. The rendered cells are the fields of
  \<open>program_row\<close>.
\<close>

record scheme =
  sets :: nat
  reps :: nat
  percentage :: js_number

definition schemeByWeek :: "scheme list" where
  "schemeByWeek =
     [\<lparr>sets = 3, reps = 8, percentage = 0.575\<rparr>,
      \<lparr>sets = 4, reps = 6, percentage = 0.65\<rparr>,
      \<lparr>sets = 6, reps = 4, percentage = 0.725\<rparr>,
      \<lparr>sets = 8, reps = 3, percentage = 0.8\<rparr>]"

text \<open>\<open>2.5 * Math.ceil((max * percentage) / 2.5)\<close>, line 235.\<close>

definition working_weight :: "js_number \<Rightarrow> js_number \<Rightarrow> js_number" where
  "working_weight m p = 2.5 * Math_ceil ((m * p) / 2.5)"

record program_row =
  row_name :: string
  row_sets :: nat
  row_reps :: nat
  row_percentage :: string
  row_weight :: js_number
  row_total :: string

definition ProgramTableRow :: "string \<Rightarrow> js_number \<Rightarrow> int \<Rightarrow> js_error + program_row" where
  "ProgramTableRow name m week =
     (case js_array_get schemeByWeek week of
        None \<Rightarrow> Inl (TypeError ''Cannot destructure schemeByWeek[week] as it is undefined.'')
      | Some s \<Rightarrow>
          (let weight = working_weight m (percentage s);
               total = toFixed 0 (of_nat (sets s) * of_nat (reps s) * weight)
           in Inr \<lparr>row_name = name, row_sets = sets s, row_reps = reps s,
                   row_percentage = toFixed 1 (percentage s * 100) @ ''%'',
                   row_weight = weight, row_total = total\<rparr>))"

subsection \<open>The rounding\<close>

text \<open>A load a lifter can put on the bar: a multiple of the 2.5 increment.\<close>

definition plate_load :: "js_number \<Rightarrow> bool" where
  "plate_load w \<longleftrightarrow> w = 2.5 * of_int \<lceil>w / 2.5\<rceil>"

lemma plate_load_iff: "plate_load w \<longleftrightarrow> (\<exists>k. w = 2.5 * of_int k)"
proof
  assume "plate_load w"
  then show "\<exists>k. w = 2.5 * of_int k" unfolding plate_load_def by blast
next
  assume "\<exists>k. w = 2.5 * of_int k"
  then obtain k where "w = 2.5 * of_int k" by blast
  then show "plate_load w" by (simp add: plate_load_def)
qed

lemma working_weight_plate: "plate_load (working_weight m p)"
  by (auto simp: plate_load_iff working_weight_def Math_ceil_def)

lemma working_weight_bounds:
  "m * p \<le> working_weight m p \<and> working_weight m p < m * p + 2.5"
proof -
  let ?x = "(m * p) / 2.5"
  have "?x \<le> Math_ceil ?x" and "Math_ceil ?x < ?x + 1"
    using Math_ceil_bounds [of ?x] by simp_all
  then show ?thesis by (simp add: working_weight_def field_simps)
qed

lemma working_weight_mono_raw:
  "m * p \<le> m' * p' \<Longrightarrow> working_weight m p \<le> working_weight m' p'"
  unfolding working_weight_def
  by (intro mult_left_mono Math_ceil_mono divide_right_mono) simp_all

subsection \<open>The week table\<close>

lemma schemeByWeek_volume: "s \<in> set schemeByWeek \<Longrightarrow> sets s * reps s = 24"
  by (auto simp: schemeByWeek_def)

lemma schemeByWeek_percentage_mono:
  "0 \<le> w \<Longrightarrow> w < 3 \<Longrightarrow>
   percentage (schemeByWeek ! nat w) \<le> percentage (schemeByWeek ! nat (w + 1))"
proof -
  assume "0 \<le> w" "w < 3"
  then have "w = 0 \<or> w = 1 \<or> w = 2" by arith
  then show ?thesis by (auto simp: schemeByWeek_def)
qed

lemma ProgramTableRow_Inr:
  "ProgramTableRow name m week = Inr r \<longleftrightarrow>
   0 \<le> week \<and> week < 4 \<and>
   r = (let s = schemeByWeek ! nat week; weight = working_weight m (percentage s)
        in \<lparr>row_name = name, row_sets = sets s, row_reps = reps s,
            row_percentage = toFixed 1 (percentage s * 100) @ ''%'',
            row_weight = weight, row_total = toFixed 0 (of_nat (sets s) * of_nat (reps s) * weight)\<rparr>)"
  by (auto simp: ProgramTableRow_def js_array_get_def schemeByWeek_def Let_def)

lemma ProgramTableRow_week:
  "ProgramTableRow name m week = Inr r \<Longrightarrow> week = 0 \<or> week = 1 \<or> week = 2 \<or> week = 3"
  by (auto simp: ProgramTableRow_Inr)

lemma ProgramTableRow_weight:
  "ProgramTableRow name m week = Inr r \<Longrightarrow>
   row_weight r = working_weight m (percentage (schemeByWeek ! nat week))"
  by (auto simp: ProgramTableRow_Inr Let_def)

lemma ProgramTableRow_scheme:
  "ProgramTableRow name m week = Inr r \<Longrightarrow> schemeByWeek ! nat week \<in> set schemeByWeek"
proof -
  assume "ProgramTableRow name m week = Inr r"
  then have "nat week < length schemeByWeek"
    by (auto simp: ProgramTableRow_Inr schemeByWeek_def)
  then show ?thesis by (rule nth_mem)
qed

lemmas program_eval = ProgramTableRow_def js_array_get_def schemeByWeek_def working_weight_def
  Math_ceil_def number_eval Let_def

text \<open>Rows of the two lifts the specification works through.\<close>

lemma ProgramTableRow_bench_0:
  "ProgramTableRow ''Bench Press'' 160 0 =
     Inr \<lparr>row_name = ''Bench Press'', row_sets = 3, row_reps = 8, row_percentage = ''57.5%'',
          row_weight = 92.5, row_total = ''2220''\<rparr>"
  by (simp add: program_eval)

lemma ProgramTableRow_squat_3:
  "ProgramTableRow ''Squat'' 240 3 =
     Inr \<lparr>row_name = ''Squat'', row_sets = 8, row_reps = 3, row_percentage = ''80.0%'',
          row_weight = 192.5, row_total = ''4620''\<rparr>"
  by (simp add: program_eval)

lemma ProgramTableRow_squat_2:
  "ProgramTableRow ''Squat'' 240 2 =
     Inr \<lparr>row_name = ''Squat'', row_sets = 6, row_reps = 4, row_percentage = ''72.5%'',
          row_weight = 175, row_total = ''4200''\<rparr>"
  by (simp add: program_eval)

lemma percentage_strings:
  "toFixed 1 (0.575 * 100) = ''57.5''" "toFixed 1 (0.65 * 100) = ''65.0''"
  "toFixed 1 (0.725 * 100) = ''72.5''" "toFixed 1 (0.8 * 100) = ''80.0''"
  by (simp_all add: number_eval)

subsection \<open>Properties of a program row\<close>

text \<open>C1: the working weight of every row is a plate load (a multiple of 2.5), never
  below the raw load \<open>max * percentage\<close>, and less than one increment above it.\<close>

theorem ProgramTableRow_weight_rounding:
  assumes "ProgramTableRow name m week = Inr r"
  shows "plate_load (row_weight r) \<and>
         m * percentage (schemeByWeek ! nat week) \<le> row_weight r \<and>
         row_weight r < m * percentage (schemeByWeek ! nat week) + 2.5"
  using ProgramTableRow_weight [OF assms] working_weight_plate working_weight_bounds by simp

theorem ProgramTableRow_weight_rounding_witness:
  "ProgramTableRow ''Bench Press'' 160 0 =
     Inr \<lparr>row_name = ''Bench Press'', row_sets = 3, row_reps = 8, row_percentage = ''57.5%'',
          row_weight = 92.5, row_total = ''2220''\<rparr> \<and>
   plate_load 92.5 \<and> 160 * percentage (schemeByWeek ! 0) \<le> 92.5 \<and>
   (92.5 :: rat) < 160 * percentage (schemeByWeek ! 0) + 2.5"
  using ProgramTableRow_bench_0 ProgramTableRow_weight_rounding [OF ProgramTableRow_bench_0]
  by simp

text \<open>C2: a row is computed exactly for the weeks \<open>0..3\<close>; for any other week the
  destructuring of \<open>schemeByWeek[week]\<close> throws a \<open>TypeError\<close>.\<close>

theorem ProgramTableRow_error:
  "((\<exists>r. ProgramTableRow name m week = Inr r) \<longleftrightarrow> 0 \<le> week \<and> week \<le> 3) \<and>
   (ProgramTableRow name m week =
     Inl (TypeError ''Cannot destructure schemeByWeek[week] as it is undefined.'') \<longleftrightarrow>
   week < 0 \<or> 3 < week)"
  by (auto simp: ProgramTableRow_def js_array_get_def schemeByWeek_def Let_def)

text \<open>C3: the volume column never rounds: every week prescribes 24 repetitions, so the
  volume is \<open>60 k\<close> for the weight \<open>2.5 k\<close>, and \<open>toFixed(0)\<close> prints exactly
  that integer.\<close>

theorem ProgramTableRow_total_exact:
  assumes "ProgramTableRow name m week = Inr r"
  shows "\<exists>k. row_weight r = 2.5 * of_int k \<and> row_total r = int_string (60 * k)"
proof -
  let ?s = "schemeByWeek ! nat week"
  obtain k where k: "working_weight m (percentage ?s) = 2.5 * of_int k"
    using working_weight_plate by (auto simp: plate_load_iff)
  have "sets ?s * reps ?s = 24"
    using ProgramTableRow_scheme [OF assms] by (rule schemeByWeek_volume)
  then have vol: "of_nat (sets ?s) * of_nat (reps ?s) = (24 :: rat)"
    by (metis of_nat_mult of_nat_numeral)
  have "row_total r = toFixed 0 (of_nat (sets ?s) * of_nat (reps ?s) * (2.5 * of_int k))"
    using assms k by (simp add: ProgramTableRow_Inr Let_def)
  also have "\<dots> = toFixed 0 (of_int (60 * k))"
    by (simp add: vol)
  finally have "row_total r = int_string (60 * k)"
    using toFixed_0_of_int [of "60 * k"] by simp
  moreover have "row_weight r = 2.5 * of_int k"
    using ProgramTableRow_weight [OF assms] k by simp
  ultimately show ?thesis by blast
qed

theorem ProgramTableRow_total_exact_witness:
  "ProgramTableRow ''Bench Press'' 160 0 =
     Inr \<lparr>row_name = ''Bench Press'', row_sets = 3, row_reps = 8, row_percentage = ''57.5%'',
          row_weight = 92.5, row_total = ''2220''\<rparr> \<and>
   (\<exists>k. (92.5 :: rat) = 2.5 * of_int k \<and> ''2220'' = int_string (60 * k))"
  using ProgramTableRow_bench_0 ProgramTableRow_total_exact [OF ProgramTableRow_bench_0]
  by simp

text \<open>C4: the percentage column shows 57.5\<percent>, 65.0\<percent>, 72.5\<percent> and 80.0\<percent>
  for weeks 1 to 4.\<close>

theorem ProgramTableRow_percentage:
  assumes "ProgramTableRow name m week = Inr r"
  shows "row_percentage r = [''57.5%'', ''65.0%'', ''72.5%'', ''80.0%''] ! nat week"
proof -
  have "row_percentage r = toFixed 1 (percentage (schemeByWeek ! nat week) * 100) @ ''%''"
    using assms by (simp add: ProgramTableRow_Inr Let_def)
  then show ?thesis
    using ProgramTableRow_week [OF assms] percentage_strings
    by (auto simp: schemeByWeek_def)
qed

theorem ProgramTableRow_percentage_witness:
  "ProgramTableRow ''Squat'' 240 2 =
     Inr \<lparr>row_name = ''Squat'', row_sets = 6, row_reps = 4, row_percentage = ''72.5%'',
          row_weight = 175, row_total = ''4200''\<rparr> \<and>
   ''72.5%'' = [''57.5%'', ''65.0%'', ''72.5%'', ''80.0%''] ! nat 2"
  using ProgramTableRow_squat_2 ProgramTableRow_percentage [OF ProgramTableRow_squat_2]
  by simp

text \<open>C5: for a non-negative 1RM the program gets heavier from week to week: the weight
  of week \<open>w + 1\<close> is at least that of week \<open>w\<close>.\<close>

theorem ProgramTableRow_weekly_progression:
  assumes "0 \<le> m"
    and "ProgramTableRow name m week = Inr r" and "ProgramTableRow name m (week + 1) = Inr r'"
  shows "row_weight r \<le> row_weight r'"
proof -
  have "0 \<le> week" and "week < 3"
    using ProgramTableRow_week [OF assms(2)] ProgramTableRow_week [OF assms(3)] by auto
  then have "percentage (schemeByWeek ! nat week) \<le> percentage (schemeByWeek ! nat (week + 1))"
    by (rule schemeByWeek_percentage_mono)
  then have "m * percentage (schemeByWeek ! nat week) \<le> m * percentage (schemeByWeek ! nat (week + 1))"
    using assms(1) by (rule mult_left_mono)
  then show ?thesis
    using ProgramTableRow_weight [OF assms(2)] ProgramTableRow_weight [OF assms(3)]
    by (simp add: working_weight_mono_raw)
qed

theorem ProgramTableRow_weekly_progression_witness:
  "(0 :: rat) \<le> 240 \<and>
   ProgramTableRow ''Squat'' 240 2 =
     Inr \<lparr>row_name = ''Squat'', row_sets = 6, row_reps = 4, row_percentage = ''72.5%'',
          row_weight = 175, row_total = ''4200''\<rparr> \<and>
   ProgramTableRow ''Squat'' 240 (2 + 1) =
     Inr \<lparr>row_name = ''Squat'', row_sets = 8, row_reps = 3, row_percentage = ''80.0%'',
          row_weight = 192.5, row_total = ''4620''\<rparr> \<and>
   (175 :: rat) \<le> 192.5"
proof -
  have nn: "(0 :: rat) \<le> 240" by simp
  have r3: "ProgramTableRow ''Squat'' 240 (2 + 1) =
     Inr \<lparr>row_name = ''Squat'', row_sets = 8, row_reps = 3, row_percentage = ''80.0%'',
          row_weight = 192.5, row_total = ''4620''\<rparr>"
    using ProgramTableRow_squat_3 by simp
  show ?thesis
    using nn ProgramTableRow_squat_2 r3
      ProgramTableRow_weekly_progression [OF nn ProgramTableRow_squat_2 r3] by simp
qed

end
