(* ===== verification/App.thy ===== *)
theory App
  imports Lift_Row Provider Program
begin

text \<open>
  The whole application (\<open>App\<close>, src/src/App.tsx lines 302--313) as a state machine
  over user events. Its state \<open>app_state\<close> gathers the state of every component: the
  provider's lift object (line 31) and the \<open>localStorage\<close> entry it writes, the local
  state of each mounted \<open>LiftTableRow\<close> keyed by its React key, the lift's name
  (line 162), the add-row flag of \<open>LiftsTable\<close> (line 146) with the local state of the
  add row, the week of \<open>ProgramTable\<close> (line 252), and the alerts shown so far.
  \<open>app_step\<close> handles one event, in the order React does: the row's own state
  updates and the callbacks it calls, the effects of the table handlers
  (\<open>commit_effects\<close>: queued updaters of the lift object, add-row flag, alerts), the
  re-render, in which the rows are reconciled by key with the new lift object
  (\<open>reconcile_rows\<close>: a row whose key survives keeps its local state, a new key mounts
  a fresh row, a vanished key unmounts it), and the save effect, which runs when the
  lift object changed. An event whose control is absent or disabled is \<open>None\<close>;
  \<open>Reload\<close> remounts the application from storage and may throw.
\<close>

record app_state =
  lifts :: js_object
  storage :: "string option"
  rows :: "(string \<times> row_state) list"
  isAddingNewLift :: bool
  new_row :: row_state
  week :: int
  alerts :: "string list"

datatype app_event =
    RowEvent string row_event \<comment> \<open>an event on the row of the lift with that name\<close>
  | NewRowEvent row_event     \<comment> \<open>an event on the add row\<close>
  | ClickPlus                 \<comment> \<open>the \<open>+\<close> button (lines 210--218)\<close>
  | ClickPrevWeek             \<comment> \<open>\<open><<\<close> (lines 276--283)\<close>
  | ClickNextWeek             \<comment> \<open>\<open>>>\<close> (lines 285--292)\<close>
  | Reload                    \<comment> \<open>the page is loaded again\<close>

text \<open>The props \<open>LiftsTable\<close> gives a row of the table (lines 161--178) and the add row
  (lines 182--206), and the handlers each callback of a row runs: a table row has no
  \<open>onCancel\<close> and the add row no \<open>onDelete\<close>, so those are the default no-ops (lines
  55--56).\<close>

definition table_row_props :: "string \<Rightarrow> js_number \<Rightarrow> row_props" where
  "table_row_props name m = \<lparr>nameProp = name, maxProp = m, isAddingNew = False\<rparr>"

definition new_row_props :: row_props where
  "new_row_props = \<lparr>nameProp = [], maxProp = 0, isAddingNew = True\<rparr>"

fun table_row_callback :: "string \<Rightarrow> row_callback \<Rightarrow> table_effect list" where
  "table_row_callback name (CallSave lift) = onSave_row name lift"
| "table_row_callback name (CallDelete n) = onDelete_row n"
| "table_row_callback name CallCancel = []"

fun new_row_callback :: "js_object \<Rightarrow> row_callback \<Rightarrow> table_effect list" where
  "new_row_callback current (CallSave lift) = onSave_new current lift"
| "new_row_callback current CallCancel = onCancel_new"
| "new_row_callback current (CallDelete n) = []"

text \<open>Keyed reconciliation of the rows rendered from the lift object (lines 158--179).\<close>

definition reconcile_rows :: "js_object \<Rightarrow> (string \<times> row_state) list \<Rightarrow> (string \<times> row_state) list" where
  "reconcile_rows current rs =
     map (\<lambda>(name, m). (name, case map_of rs name of
                               Some st \<Rightarrow> st
                             | None \<Rightarrow> row_mount (table_row_props name m))) current"

fun adding_after :: "table_effect list \<Rightarrow> bool \<Rightarrow> bool" where
  "adding_after [] b = b"
| "adding_after (SetIsAddingNewLift b' # es) b = adding_after es b'"
| "adding_after (_ # es) b = adding_after es b"

fun alerts_of :: "table_effect list \<Rightarrow> string list" where
  "alerts_of [] = []"
| "alerts_of (Alert msg # es) = msg # alerts_of es"
| "alerts_of (_ # es) = alerts_of es"

definition commit_effects :: "table_effect list \<Rightarrow> app_state \<Rightarrow> app_state" where
  "commit_effects es s =
     (let lifts' = lifts_after es (lifts s)
      in s\<lparr>lifts := lifts',
          storage := (if sets_lifts es then persist_lifts lifts' else storage s),
          rows := reconcile_rows lifts' (rows s),
          isAddingNewLift := adding_after es (isAddingNewLift s),
          alerts := alerts s @ alerts_of es\<rparr>)"

text \<open>The value a number input passes to \<open>onChange\<close> is a decimal numeral (or the empty
  string, which \<open>Number\<close> reads as 0), so the 1RM a row receives is a decimal.\<close>

definition number_input_ok :: "row_event \<Rightarrow> bool" where
  "number_input_ok e \<longleftrightarrow> (case e of InputMax v \<Rightarrow> is_decimal v | _ \<Rightarrow> True)"

definition app_mount :: "string option \<Rightarrow> js_error + app_state" where
  "app_mount stored =
     (case provider_mount stored of
        Inl e \<Rightarrow> Inl e
      | Inr (lifts0, writes) \<Rightarrow>
          Inr \<lparr>lifts = lifts0, storage = last writes, rows = reconcile_rows lifts0 [],
               isAddingNewLift = False, new_row = row_mount new_row_props, week = 0,
               alerts = []\<rparr>)"

fun app_step :: "app_state \<Rightarrow> app_event \<Rightarrow> (js_error + app_state) option" where
  "app_step s (RowEvent name e) =
     (case (map_of (rows s) name, map_of (lifts s) name) of
        (Some st, Some m) \<Rightarrow>
          if number_input_ok e then
            (case row_step (table_row_props name m) st e of
               None \<Rightarrow> None
             | Some (st', cbs) \<Rightarrow>
                 Some (Inr (commit_effects (concat (map (table_row_callback name) cbs))
                                           (s\<lparr>rows := AList.update name st' (rows s)\<rparr>))))
          else None
      | _ \<Rightarrow> None)"
| "app_step s (NewRowEvent e) =
     (if isAddingNewLift s \<and> number_input_ok e then
        (case row_step new_row_props (new_row s) e of
           None \<Rightarrow> None
         | Some (st', cbs) \<Rightarrow>
             Some (Inr (commit_effects (concat (map (new_row_callback (lifts s)) cbs))
                                       (s\<lparr>new_row := st'\<rparr>))))
      else None)"
| "app_step s ClickPlus =
     (if isAddingNewLift s then None
      else Some (Inr (s\<lparr>isAddingNewLift := True, new_row := row_mount new_row_props\<rparr>)))"
| "app_step s ClickPrevWeek =
     (if week s = 0 then None else Some (Inr (s\<lparr>week := week s - 1\<rparr>)))"
| "app_step s ClickNextWeek =
     (if week s = 3 then None else Some (Inr (s\<lparr>week := week s + 1\<rparr>)))"
| "app_step s Reload = Some (app_mount (storage s))"

fun app_run :: "app_state \<Rightarrow> app_event list \<Rightarrow> (js_error + app_state) option" where
  "app_run s [] = Some (Inr s)"
| "app_run s (e # es) =
     (case app_step s e of
        None \<Rightarrow> None
      | Some (Inl err) \<Rightarrow> Some (Inl err)
      | Some (Inr s') \<Rightarrow> app_run s' es)"

text \<open>A session: the page is loaded with what storage holds, then the user's events.\<close>

definition app_session :: "string option \<Rightarrow> app_event list \<Rightarrow> (js_error + app_state) option" where
  "app_session stored evs =
     (case app_mount stored of
        Inl err \<Rightarrow> Some (Inl err)
      | Inr s \<Rightarrow> app_run s evs)"

text \<open>What the two tables render: the rows of \<open>LiftsTable\<close> (the local state of each
  row, in the order of \<open>Object.entries\<close> sorted with \<open>localeCompare\<close>) and the rows of
  \<open>ProgramTable\<close> (lines 268--272). The collation of \<open>localeCompare\<close> depends on the
  locale; it is the parameter \<open>collate\<close>, a key into a linear order, and the sort is
  stable as \<open>Array.prototype.sort\<close> is.\<close>

definition LiftsTable_rows :: "(string \<Rightarrow> 'k :: linorder) \<Rightarrow> app_state \<Rightarrow> (string \<times> row_state) list" where
  "LiftsTable_rows collate s =
     map (\<lambda>(name, m). (name, case map_of (rows s) name of
                               Some st \<Rightarrow> st
                             | None \<Rightarrow> row_mount (table_row_props name m)))
       (sort_key (\<lambda>(name, _). collate name) (js_entries (lifts s)))"

definition ProgramTable_rows :: "(string \<Rightarrow> 'k :: linorder) \<Rightarrow> app_state \<Rightarrow> (js_error + program_row) list" where
  "ProgramTable_rows collate s =
     map (\<lambda>(name, m). ProgramTableRow name m (week s))
       (sort_key (\<lambda>(name, _). collate name) (js_entries (lifts s)))"

subsection \<open>Reachable states and their invariant\<close>

text \<open>The states the application can be in: mounted on the first visit, or on the
  string an earlier session saved, then any sequence of events that do not throw.
  \<open>row_ok\<close> says that a row shows its own key as name unless it is being edited, and
  \<open>app_inv\<close> is the invariant of every reachable state.\<close>

inductive reachable :: "app_state \<Rightarrow> bool" where
  first_visit: "app_mount None = Inr s \<Longrightarrow> reachable s"
| returning: "obj_wf obj \<Longrightarrow> decimal_values obj \<Longrightarrow> app_mount (persist_lifts obj) = Inr s \<Longrightarrow>
              reachable s"
| step: "reachable s \<Longrightarrow> app_step s e = Some (Inr s') \<Longrightarrow> reachable s'"

definition row_ok :: "string \<Rightarrow> row_state \<Rightarrow> bool" where
  "row_ok name st \<longleftrightarrow> (\<not> isEditing st \<longrightarrow> edit_name st = name) \<and> is_decimal (edit_max st)"

definition app_inv :: "app_state \<Rightarrow> bool" where
  "app_inv s \<longleftrightarrow>
     obj_wf (lifts s) \<and> decimal_values (lifts s) \<and> storage s = persist_lifts (lifts s) \<and>
     0 \<le> week s \<and> week s \<le> 3 \<and> map fst (rows s) = map fst (lifts s) \<and>
     list_all (\<lambda>(name, st). row_ok name st) (rows s) \<and>
     \<not> isEditing (new_row s) \<and> is_decimal (edit_max (new_row s))"

fun effect_decimal :: "table_effect \<Rightarrow> bool" where
  "effect_decimal (SetLifts (RenameLift n l)) = is_decimal (lift_max l)"
| "effect_decimal (SetLifts (AddLift l)) = is_decimal (lift_max l)"
| "effect_decimal _ = True"

subsection \<open>The registry of the specification\<close>

text \<open>The lift registry as the specification describes it (spec.md section 4.1): a
  finite map from names to 1RMs with \<open>add\<close> (refused for an empty or present name),
  \<open>rename\<close> (remove the old name, insert the new one) and \<open>remove\<close>.
  \<open>ui_registry_op\<close> names the registry operation a user event performs: Save on a
  row renames its key to the typed name, Delete removes the typed name, Save on the
  add row adds the typed lift. \<open>reg_compatible\<close> excludes the inputs on which the
  JavaScript object differs from a map: names of \<open>Object.prototype\<close>, and an
  existing 1RM of 0 for an added name.\<close>

type_synonym registry = "string \<rightharpoonup> js_number"

datatype reg_op =
    RegAdd string js_number
  | RegRename string string js_number
  | RegRemove string

fun reg_apply :: "reg_op \<Rightarrow> registry \<Rightarrow> registry" where
  "reg_apply (RegAdd n m) r = (if n = [] \<or> r n \<noteq> None then r else r(n \<mapsto> m))"
| "reg_apply (RegRename old new m) r = (r(old := None))(new \<mapsto> m)"
| "reg_apply (RegRemove n) r = r(n := None)"

fun reg_compatible :: "registry \<Rightarrow> reg_op \<Rightarrow> bool" where
  "reg_compatible r (RegAdd n m) \<longleftrightarrow> n \<notin> set object_prototype_members \<and> r n \<noteq> Some 0"
| "reg_compatible r (RegRename old new m) \<longleftrightarrow> new \<noteq> ''__proto__''"
| "reg_compatible r (RegRemove n) \<longleftrightarrow> True"

fun ui_registry_op :: "app_state \<Rightarrow> app_event \<Rightarrow> reg_op option" where
  "ui_registry_op s (RowEvent name ClickSave) =
     map_option (\<lambda>st. RegRename name (edit_name st) (edit_max st)) (map_of (rows s) name)"
| "ui_registry_op s (RowEvent name ClickDelete) =
     map_option (\<lambda>st. RegRemove (edit_name st)) (map_of (rows s) name)"
| "ui_registry_op s (NewRowEvent ClickSave) =
     Some (RegAdd (edit_name (new_row s)) (edit_max (new_row s)))"
| "ui_registry_op s _ = None"

subsection \<open>Effects on the fields of the state\<close>

lemma commit_effects_fields [simp]:
  "lifts (commit_effects es s) = lifts_after es (lifts s)"
  "storage (commit_effects es s) = (if sets_lifts es then persist_lifts (lifts_after es (lifts s)) else storage s)"
  "rows (commit_effects es s) = reconcile_rows (lifts_after es (lifts s)) (rows s)"
  "isAddingNewLift (commit_effects es s) = adding_after es (isAddingNewLift s)"
  "new_row (commit_effects es s) = new_row s"
  "week (commit_effects es s) = week s"
  "alerts (commit_effects es s) = alerts s @ alerts_of es"
  by (simp_all add: commit_effects_def Let_def)

subsection \<open>Values stay decimal\<close>

lemma decimal_values_js_set:
  "decimal_values obj \<Longrightarrow> is_decimal v \<Longrightarrow> decimal_values (js_set obj k v)"
  using set_update_subset [of k v obj]
  by (auto simp: decimal_values_def js_set_def)

lemma decimal_values_js_delete: "decimal_values obj \<Longrightarrow> decimal_values (js_delete obj k)"
  by (auto simp: decimal_values_def js_delete_def AList.delete_eq)

lemma decimal_values_lifts_after:
  "decimal_values obj \<Longrightarrow> list_all effect_decimal es \<Longrightarrow> decimal_values (lifts_after es obj)"
proof (induction es arbitrary: obj)
  case (Cons e es)
  then show ?case
    by (cases e rule: effect_decimal.cases) (simp_all add: decimal_values_js_set decimal_values_js_delete)
qed simp

lemma decimal_values_js_entries [simp]: "decimal_values (js_entries obj) = decimal_values obj"
  by (simp add: decimal_values_def)

subsection \<open>Rows\<close>

lemma row_ok_mount [simp]: "row_ok name (row_mount (table_row_props name m)) \<longleftrightarrow> is_decimal m"
  by (simp add: row_ok_def row_mount_def table_row_props_def)

lemma reconcile_rows_keys [simp]: "map fst (reconcile_rows l rs) = map fst l"
  by (induction l) (auto simp: reconcile_rows_def)

lemma reconcile_rows_ok:
  assumes "decimal_values l"
    and "\<And>k st. k \<in> obj_keys l \<Longrightarrow> map_of rs k = Some st \<Longrightarrow> row_ok k st"
  shows "list_all (\<lambda>(k, st). row_ok k st) (reconcile_rows l rs)"
  unfolding reconcile_rows_def list_all_iff
proof (clarsimp)
  fix k m
  assume km: "(k, m) \<in> set l"
  then have "is_decimal m" using assms(1) by (auto simp: decimal_values_def)
  moreover have "k \<in> obj_keys l" using km by force
  ultimately show "row_ok k (case map_of rs k of None \<Rightarrow> row_mount (table_row_props k m) | Some st \<Rightarrow> st)"
    using assms(2) by (auto split: option.split)
qed

lemma list_all_row_ok_map_of:
  "list_all (\<lambda>(k, st). row_ok k st) rs \<Longrightarrow> map_of rs k = Some st \<Longrightarrow> row_ok k st"
  by (auto simp: list_all_iff dest: map_of_SomeD)

lemma row_step_callbacks:
  "row_step p st e = Some (st', cbs) \<Longrightarrow>
   cbs = [] \<or> cbs = [CallSave \<lparr>lift_name = edit_name st, lift_max = edit_max st\<rparr>] \<or>
   cbs = [CallCancel] \<or> cbs = [CallDelete (edit_name st)]"
  by (cases e) (auto split: if_splits)

lemma row_step_decimal:
  "row_step p st e = Some (st', cbs) \<Longrightarrow> is_decimal (edit_max st) \<Longrightarrow> is_decimal (maxProp p) \<Longrightarrow>
   number_input_ok e \<Longrightarrow> is_decimal (edit_max st')"
  by (cases e) (auto simp: number_input_ok_def split: if_splits)

lemma table_row_effects_decimal:
  "row_step p st e = Some (st', cbs) \<Longrightarrow> is_decimal (edit_max st) \<Longrightarrow>
   list_all effect_decimal (concat (map (table_row_callback name) cbs))"
  by (drule row_step_callbacks) (auto simp: onSave_row_def onDelete_row_def)

lemma new_row_effects_decimal:
  "row_step p st e = Some (st', cbs) \<Longrightarrow> is_decimal (edit_max st) \<Longrightarrow>
   list_all effect_decimal (concat (map (new_row_callback l) cbs))"
  by (drule row_step_callbacks) (auto simp: onSave_new_def onCancel_new_def)

subsection \<open>The invariant is preserved\<close>

lemma app_inv_commit:
  assumes "obj_wf (lifts s)" "decimal_values (lifts s)" "storage s = persist_lifts (lifts s)"
    and "0 \<le> week s" "week s \<le> 3" "\<not> isEditing (new_row s)" "is_decimal (edit_max (new_row s))"
    and "list_all effect_decimal es"
    and "\<And>k st. k \<in> obj_keys (lifts_after es (lifts s)) \<Longrightarrow> map_of (rows s) k = Some st \<Longrightarrow> row_ok k st"
  shows "app_inv (commit_effects es s)"
proof -
  have "(if sets_lifts es then persist_lifts (lifts_after es (lifts s)) else storage s) =
        persist_lifts (lifts_after es (lifts s))"
    using lifts_after_no_set [of es "lifts s"] assms(3) by auto
  moreover have "decimal_values (lifts_after es (lifts s))"
    using decimal_values_lifts_after assms(2,8) by blast
  ultimately show ?thesis
    using assms reconcile_rows_ok [of "lifts_after es (lifts s)" "rows s"] obj_wf_lifts_after
    by (simp add: app_inv_def commit_effects_def Let_def)
qed

lemma rename_keeps_key: "name \<in> obj_keys (js_set (js_delete l name) n v) \<Longrightarrow> n = name"
  by (simp add: obj_keys_js_set split: if_splits)

lemma row_step_row_ok:
  assumes "row_ok name st" and "is_decimal m" and "number_input_ok e"
    and "row_step (table_row_props name m) st e = Some (st', cbs)"
    and "name \<in> obj_keys (lifts_after (concat (map (table_row_callback name) cbs)) l)"
  shows "row_ok name st'"
proof (cases e)
  case ClickSave
  then have cbs: "cbs = [CallSave \<lparr>lift_name = edit_name st, lift_max = edit_max st\<rparr>]"
    and st': "st' = st\<lparr>isEditing := False\<rparr>"
    using assms(4) by (auto split: if_splits)
  have "lifts_after (concat (map (table_row_callback name) cbs)) l =
        js_set (js_delete l name) (edit_name st) (edit_max st)"
    by (simp add: cbs onSave_row_def)
  then have "edit_name st = name" using assms(5) rename_keeps_key by metis
  then show ?thesis using assms(1) st' by (simp add: row_ok_def)
qed (use assms in \<open>auto simp: row_ok_def table_row_props_def row_mount_def number_input_ok_def
       inputs_enabled_def split: if_splits\<close>)

lemma app_mount_inv:
  assumes "load_lifts stored = Inr l" and "obj_wf l" and "decimal_values l"
    and "app_mount stored = Inr s"
  shows "app_inv s"
proof -
  have "s = \<lparr>lifts = l, storage = persist_lifts l, rows = reconcile_rows l [],
             isAddingNewLift = False, new_row = row_mount new_row_props, week = 0, alerts = []\<rparr>"
    using assms(1,4) by (simp add: app_mount_def provider_mount_def)
  then show ?thesis
    using assms(2,3) reconcile_rows_ok [of l "[]"]
    by (simp add: app_inv_def row_mount_def new_row_props_def)
qed

lemma obj_wf_defaultLifts: "obj_wf defaultLifts \<and> decimal_values defaultLifts"
  by (simp add: obj_wf_def decimal_values_defaultLifts) (simp add: defaultLifts_def)

lemma app_inv_step:
  assumes inv: "app_inv s" and step: "app_step s e = Some (Inr s')"
  shows "app_inv s'"
proof (cases e)
  case (RowEvent name re)
  then obtain st m st' cbs where st: "map_of (rows s) name = Some st" and m: "map_of (lifts s) name = Some m"
    and ie: "number_input_ok re" and rs: "row_step (table_row_props name m) st re = Some (st', cbs)"
    and s': "s' = commit_effects (concat (map (table_row_callback name) cbs))
                    (s\<lparr>rows := AList.update name st' (rows s)\<rparr>)"
    using step by (auto split: option.splits if_splits)
  have ok: "row_ok name st" using inv st by (auto simp: app_inv_def intro: list_all_row_ok_map_of)
  have md: "is_decimal m" using inv m by (auto simp: app_inv_def decimal_values_def dest: map_of_SomeD)
  have ed: "is_decimal (edit_max st)" using ok by (simp add: row_ok_def)
  show ?thesis
    unfolding s'
  proof (rule app_inv_commit)
    fix k st0
    assume k: "k \<in> obj_keys (lifts_after (concat (map (table_row_callback name) cbs))
                   (lifts (s\<lparr>rows := AList.update name st' (rows s)\<rparr>)))"
      and k0: "map_of (rows (s\<lparr>rows := AList.update name st' (rows s)\<rparr>)) k = Some st0"
    show "row_ok k st0"
    proof (cases "k = name")
      case True
      then show ?thesis using k k0 row_step_row_ok [OF ok md ie rs] by (simp add: update_conv')
    next
      case False
      then show ?thesis using k0 inv by (auto simp: app_inv_def update_conv' intro: list_all_row_ok_map_of)
    qed
  qed (use inv table_row_effects_decimal [OF rs ed] in \<open>simp_all add: app_inv_def\<close>)
next
  case (NewRowEvent re)
  then obtain st' cbs where ad: "isAddingNewLift s" and ie: "number_input_ok re"
    and rs: "row_step new_row_props (new_row s) re = Some (st', cbs)"
    and s': "s' = commit_effects (concat (map (new_row_callback (lifts s)) cbs)) (s\<lparr>new_row := st'\<rparr>)"
    using step by (auto split: option.splits if_splits)
  have ed: "is_decimal (edit_max (new_row s))" and ne: "\<not> isEditing (new_row s)"
    using inv by (simp_all add: app_inv_def)
  have "\<not> isEditing st'"
    using row_step_not_editing_add_row [OF _ ne rs] by (simp add: new_row_props_def)
  moreover have "is_decimal (edit_max st')"
    using row_step_decimal [OF rs ed _ ie] by (simp add: new_row_props_def)
  ultimately show ?thesis
    unfolding s'
    using inv new_row_effects_decimal [OF rs ed]
    by (intro app_inv_commit) (auto simp: app_inv_def intro: list_all_row_ok_map_of)
next
  case Reload
  then have "app_mount (persist_lifts (lifts s)) = Inr s'" using step inv by (simp add: app_inv_def)
  then show ?thesis
    using inv load_lifts_stored [of "lifts s"] app_mount_inv [of "persist_lifts (lifts s)" "js_entries (lifts s)" s']
    by (simp add: app_inv_def)
qed (use inv step in \<open>auto simp: app_inv_def row_mount_def new_row_props_def split: if_splits\<close>)

subsection \<open>Reachability, reload and the registry\<close>

lemma reachable_app_inv: "reachable s \<Longrightarrow> app_inv s"
proof (induction rule: reachable.induct)
  case (first_visit s)
  then show ?case
    using obj_wf_defaultLifts app_mount_inv [of None defaultLifts s] by (simp add: load_lifts_def)
next
  case (returning obj s)
  then show ?case
    using load_lifts_stored [of obj] app_mount_inv [of "persist_lifts obj" "js_entries obj" s]
    by simp
next
  case (step s e s')
  then show ?case using app_inv_step by blast
qed

lemma first_visit_state:
  "app_mount None =
     Inr \<lparr>lifts = defaultLifts, storage = persist_lifts defaultLifts,
          rows = reconcile_rows defaultLifts [], isAddingNewLift = False,
          new_row = row_mount new_row_props, week = 0, alerts = []\<rparr>"
  by (simp add: app_mount_def provider_mount_def load_lifts_def)

lemma reload_keeps_lifts:
  assumes "app_inv s"
  shows "app_step s Reload = Some (Inr
           \<lparr>lifts = js_entries (lifts s), storage = storage s,
            rows = reconcile_rows (js_entries (lifts s)) [], isAddingNewLift = False,
            new_row = row_mount new_row_props, week = 0, alerts = []\<rparr>) \<and>
         obj_map (js_entries (lifts s)) = obj_map (lifts s)"
  using assms load_lifts_stored [of "lifts s"] obj_map_js_entries [of "lifts s"]
  by (simp add: app_inv_def app_mount_def provider_mount_def persist_lifts_def)

lemma truthy_js_get_compatible:
  "n \<notin> set object_prototype_members \<Longrightarrow> map_of l n \<noteq> Some 0 \<Longrightarrow>
   truthy (js_get l n) \<longleftrightarrow> map_of l n \<noteq> None"
  by (auto simp: truthy_js_get split: option.split)

lemma proto_not_compatible: "n \<notin> set object_prototype_members \<Longrightarrow> n \<noteq> ''__proto__''"
  using proto_in_prototype_members by auto

lemma app_step_registry:
  assumes step: "app_step s e = Some (Inr s')" and nr: "e \<noteq> Reload"
    and compat: "\<forall>op. ui_registry_op s e = Some op \<longrightarrow> reg_compatible (obj_map (lifts s)) op"
  shows "obj_map (lifts s') =
           (case ui_registry_op s e of
              None \<Rightarrow> obj_map (lifts s)
            | Some op \<Rightarrow> reg_apply op (obj_map (lifts s)))"
proof (cases e)
  case (RowEvent name re)
  then obtain st m st' cbs where st: "map_of (rows s) name = Some st"
    and rs: "row_step (table_row_props name m) st re = Some (st', cbs)"
    and s': "s' = commit_effects (concat (map (table_row_callback name) cbs))
                    (s\<lparr>rows := AList.update name st' (rows s)\<rparr>)"
    using step by (auto split: option.splits if_splits)
  show ?thesis
    using rs compat st
    by (cases re) (auto simp: s' RowEvent onSave_row_def onDelete_row_def split: if_splits)
next
  case (NewRowEvent re)
  then obtain st' cbs where rs: "row_step new_row_props (new_row s) re = Some (st', cbs)"
    and s': "s' = commit_effects (concat (map (new_row_callback (lifts s)) cbs)) (s\<lparr>new_row := st'\<rparr>)"
    using step by (auto split: option.splits if_splits)
  show ?thesis
    using rs compat
    by (cases re)
       (auto simp: s' NewRowEvent onSave_new_def onCancel_new_def truthy_js_get_compatible
          proto_not_compatible truthy_def js_get_absent split: if_splits)
qed (use step nr in \<open>auto split: if_splits\<close>)

lemma reachable_first_visit_state:
  "reachable \<lparr>lifts = defaultLifts, storage = persist_lifts defaultLifts,
          rows = reconcile_rows defaultLifts [], isAddingNewLift = False,
          new_row = row_mount new_row_props, week = 0, alerts = []\<rparr>"
  by (rule reachable.first_visit [OF first_visit_state])

lemma reachable_app_run:
  "reachable s \<Longrightarrow> app_run s es = Some (Inr s') \<Longrightarrow> reachable s'"
proof (induction es arbitrary: s)
  case (Cons e es)
  then show ?case
    by (auto split: option.splits sum.splits intro: reachable.step)
qed simp

lemma ProgramTableRow_in_range:
  "0 \<le> w \<Longrightarrow> w \<le> 3 \<Longrightarrow> ProgramTableRow name m w \<noteq> Inl err"
  by (simp add: ProgramTableRow_def js_array_get_def schemeByWeek_def Let_def)

lemma map_of_reconcile_rows:
  "map_of (reconcile_rows l rs) k =
     map_option (\<lambda>m. case map_of rs k of Some st \<Rightarrow> st | None \<Rightarrow> row_mount (table_row_props k m))
       (map_of l k)"
  by (induction l) (auto simp: reconcile_rows_def split: option.split)

subsection \<open>Properties of the application\<close>

text \<open>C19. In every reachable state the stored entry is the serialisation of the
  current lift object: every change of the lifts is persisted, and nothing else is
  ever written.\<close>

theorem storage_in_sync:
  assumes "reachable s"
  shows "storage s = persist_lifts (lifts s)"
  using reachable_app_inv [OF assms] by (simp add: app_inv_def)

theorem storage_in_sync_witness:
  "storage \<lparr>lifts = defaultLifts, storage = persist_lifts defaultLifts,
          rows = reconcile_rows defaultLifts [], isAddingNewLift = False,
          new_row = row_mount new_row_props, week = 0, alerts = []\<rparr> = persist_lifts (lifts \<lparr>lifts = defaultLifts, storage = persist_lifts defaultLifts,
          rows = reconcile_rows defaultLifts [], isAddingNewLift = False,
          new_row = row_mount new_row_props, week = 0, alerts = []\<rparr>)"
  using storage_in_sync [OF reachable_first_visit_state] .

text \<open>C20. From every reachable state a reload succeeds (the stored string parses),
  loads the same name-to-1RM map, leaves the stored string as it was, and starts
  again at week 1 with no row in edit mode.\<close>

theorem reload_restores_lifts:
  assumes "reachable s"
  shows "\<exists>s'. app_step s Reload = Some (Inr s') \<and> obj_map (lifts s') = obj_map (lifts s) \<and>
              storage s' = storage s \<and> week s' = 0 \<and> \<not> isAddingNewLift s'"
  using reload_keeps_lifts [OF reachable_app_inv [OF assms]] by auto

theorem reload_restores_lifts_witness:
  "\<exists>s'. app_step \<lparr>lifts = defaultLifts, storage = persist_lifts defaultLifts,
          rows = reconcile_rows defaultLifts [], isAddingNewLift = False,
          new_row = row_mount new_row_props, week = 0, alerts = []\<rparr> Reload = Some (Inr s') \<and>
        obj_map (lifts s') = obj_map defaultLifts \<and> storage s' = persist_lifts defaultLifts"
  using reload_restores_lifts [OF reachable_first_visit_state] by auto

text \<open>C21. The selected week never leaves 0..3 (weeks 1 to 4), however often the two
  week buttons are clicked: each is disabled at its boundary.\<close>

theorem week_in_range:
  assumes "reachable s"
  shows "0 \<le> week s \<and> week s \<le> 3"
  using reachable_app_inv [OF assms] by (simp add: app_inv_def)

theorem week_in_range_witness:
  "0 \<le> week \<lparr>lifts = defaultLifts, storage = persist_lifts defaultLifts,
          rows = reconcile_rows defaultLifts [], isAddingNewLift = False,
          new_row = row_mount new_row_props, week = 0, alerts = []\<rparr> \<and> week \<lparr>lifts = defaultLifts, storage = persist_lifts defaultLifts,
          rows = reconcile_rows defaultLifts [], isAddingNewLift = False,
          new_row = row_mount new_row_props, week = 0, alerts = []\<rparr> \<le> 3"
  using week_in_range [OF reachable_first_visit_state] .

text \<open>C22. In every reachable state no row of the program table throws: the
  destructuring of \<open>schemeByWeek[week]\<close> always finds an entry, whatever the
  collation order of the rows.\<close>

theorem program_rows_never_throw:
  assumes "reachable s"
  shows "Inl err \<notin> set (ProgramTable_rows collate s)"
  using reachable_app_inv [OF assms]
  by (auto simp: ProgramTable_rows_def app_inv_def) (metis ProgramTableRow_in_range)

theorem program_rows_never_throw_witness:
  "Inl (TypeError ''x'') \<notin> set (ProgramTable_rows (\<lambda>name. length name) \<lparr>lifts = defaultLifts, storage = persist_lifts defaultLifts,
          rows = reconcile_rows defaultLifts [], isAddingNewLift = False,
          new_row = row_mount new_row_props, week = 0, alerts = []\<rparr>)"
  using program_rows_never_throw [OF reachable_first_visit_state] .

text \<open>C23. The application refines the registry of the specification: in every
  reachable state each event changes the name-to-1RM map exactly as the registry
  operation it performs (or not at all), provided the names written are not
  members of \<open>Object.prototype\<close> and an added name does not hold a 1RM of 0.\<close>

theorem app_refines_registry:
  assumes "reachable s" and "app_step s e = Some (Inr s')"
    and "\<forall>op. ui_registry_op s e = Some op \<longrightarrow> reg_compatible (obj_map (lifts s)) op"
  shows "obj_map (lifts s') =
           (case ui_registry_op s e of
              None \<Rightarrow> obj_map (lifts s)
            | Some op \<Rightarrow> reg_apply op (obj_map (lifts s)))"
proof (cases "e = Reload")
  case True
  then show ?thesis
    using reload_keeps_lifts [OF reachable_app_inv [OF assms(1)]] assms(2) by auto
next
  case False
  show ?thesis by (rule app_step_registry [OF assms(2) False assms(3)])
qed

theorem app_refines_registry_witness:
  "\<exists>s s'. reachable s \<and> app_step s (NewRowEvent ClickSave) = Some (Inr s') \<and>
     ui_registry_op s (NewRowEvent ClickSave) = Some (RegAdd ''Front Squat'' 200) \<and>
     obj_map (lifts s') = (obj_map defaultLifts)(''Front Squat'' \<mapsto> 200)"
proof -
  let ?s0 = "\<lparr>lifts = defaultLifts, storage = persist_lifts defaultLifts,
          rows = reconcile_rows defaultLifts [], isAddingNewLift = False,
          new_row = row_mount new_row_props, week = 0, alerts = []\<rparr>"
  let ?evs = "[ClickPlus, NewRowEvent (InputName ''Front Squat''), NewRowEvent (InputMax 200)]"
  have "\<exists>s. app_run ?s0 ?evs = Some (Inr s)"
    by (simp add: row_mount_def new_row_props_def inputs_enabled_def number_input_ok_def)
  then obtain s where r: "app_run ?s0 ?evs = Some (Inr s)" by blast
  have reach: "reachable s" using reachable_app_run [OF reachable_first_visit_state r] .
  have f: "lifts s = defaultLifts \<and> isAddingNewLift s \<and>
           new_row s = \<lparr>edit_name = ''Front Squat'', edit_max = 200, isEditing = False\<rparr>"
    using r by (auto simp: row_mount_def new_row_props_def inputs_enabled_def number_input_ok_def)
  have "\<exists>s'. app_step s (NewRowEvent ClickSave) = Some (Inr s')"
    using f by (simp add: new_row_props_def number_input_ok_def)
  then obtain s' where st: "app_step s (NewRowEvent ClickSave) = Some (Inr s')" by blast
  have op: "ui_registry_op s (NewRowEvent ClickSave) = Some (RegAdd ''Front Squat'' 200)"
    using f by simp
  have "reg_compatible (obj_map (lifts s)) (RegAdd ''Front Squat'' 200)"
    using f by (simp add: object_prototype_members_def defaultLifts_def)
  then have "\<forall>op. ui_registry_op s (NewRowEvent ClickSave) = Some op \<longrightarrow>
                  reg_compatible (obj_map (lifts s)) op"
    using op by simp
  from app_refines_registry [OF reach st this]
  have "obj_map (lifts s') = reg_apply (RegAdd ''Front Squat'' 200) (obj_map defaultLifts)"
    using op f by simp
  also have "\<dots> = (obj_map defaultLifts)(''Front Squat'' \<mapsto> 200)"
    by (simp add: defaultLifts_def)
  finally show ?thesis using reach st op by blast
qed

text \<open>C24. Adding a lift through the user interface: from any state without an open
  add row, clicking \<open>+\<close>, typing a non-empty name whose read is falsy and a 1RM, and
  clicking Save stores that entry, persists the new object, closes the add row and
  raises no alert.\<close>

theorem add_lift_through_ui:
  assumes "\<not> isAddingNewLift s" and "n \<noteq> []" and "\<not> truthy (js_get (lifts s) n)"
    and "is_decimal m"
  shows "\<exists>s'. app_run s [ClickPlus, NewRowEvent (InputName n), NewRowEvent (InputMax m),
                         NewRowEvent ClickSave] = Some (Inr s') \<and>
              obj_map (lifts s') = (obj_map (lifts s))(n \<mapsto> m) \<and>
              storage s' = persist_lifts (lifts s') \<and> \<not> isAddingNewLift s' \<and> alerts s' = alerts s"
  using assms
  by (simp add: row_mount_def new_row_props_def inputs_enabled_def number_input_ok_def
        onSave_new_accept obj_map_js_set_falsy)

theorem add_lift_through_ui_witness:
  "\<exists>s'. app_run \<lparr>lifts = defaultLifts, storage = persist_lifts defaultLifts,
          rows = reconcile_rows defaultLifts [], isAddingNewLift = False,
          new_row = row_mount new_row_props, week = 0, alerts = []\<rparr> [ClickPlus, NewRowEvent (InputName ''Front Squat''), NewRowEvent (InputMax 200),
                     NewRowEvent ClickSave] = Some (Inr s') \<and>
        obj_map (lifts s') = (obj_map defaultLifts)(''Front Squat'' \<mapsto> 200)"
proof -
  have a: "\<not> isAddingNewLift \<lparr>lifts = defaultLifts, storage = persist_lifts defaultLifts,
          rows = reconcile_rows defaultLifts [], isAddingNewLift = False,
          new_row = row_mount new_row_props, week = 0, alerts = []\<rparr>" by simp
  have b: "''Front Squat'' \<noteq> []" by simp
  have c: "\<not> truthy (js_get (lifts \<lparr>lifts = defaultLifts, storage = persist_lifts defaultLifts,
          rows = reconcile_rows defaultLifts [], isAddingNewLift = False,
          new_row = row_mount new_row_props, week = 0, alerts = []\<rparr>) ''Front Squat'')"
    by (simp add: defaultLifts_def js_get_def truthy_def object_prototype_members_def)
  have d: "is_decimal (200 :: rat)" by simp
  have l: "lifts \<lparr>lifts = defaultLifts, storage = persist_lifts defaultLifts,
          rows = reconcile_rows defaultLifts [], isAddingNewLift = False,
          new_row = row_mount new_row_props, week = 0, alerts = []\<rparr> = defaultLifts" by simp
  obtain s' where r: "app_run \<lparr>lifts = defaultLifts, storage = persist_lifts defaultLifts,
          rows = reconcile_rows defaultLifts [], isAddingNewLift = False,
          new_row = row_mount new_row_props, week = 0, alerts = []\<rparr> [ClickPlus, NewRowEvent (InputName ''Front Squat''),
      NewRowEvent (InputMax 200), NewRowEvent ClickSave] = Some (Inr s')"
    and o: "obj_map (lifts s') = (obj_map (lifts \<lparr>lifts = defaultLifts, storage = persist_lifts defaultLifts,
          rows = reconcile_rows defaultLifts [], isAddingNewLift = False,
          new_row = row_mount new_row_props, week = 0, alerts = []\<rparr>))(''Front Squat'' \<mapsto> 200)"
    using add_lift_through_ui [OF a b c d] by blast
  have "obj_map (lifts s') = (obj_map defaultLifts)(''Front Squat'' \<mapsto> 200)" using o l by simp
  then show ?thesis using r by blast
qed

text \<open>C25. An open add row can always be closed: its Cancel is enabled in every
  state in which it is shown, and closes it without touching the lifts.\<close>

theorem add_row_can_close:
  assumes "isAddingNewLift s"
  shows "\<exists>s'. app_step s (NewRowEvent ClickCancel) = Some (Inr s') \<and> \<not> isAddingNewLift s' \<and>
              lifts s' = lifts s \<and> storage s' = storage s"
  using assms by (simp add: new_row_props_def number_input_ok_def onCancel_new_def)

theorem add_row_can_close_witness:
  "\<exists>s'. app_step (\<lparr>lifts = defaultLifts, storage = persist_lifts defaultLifts,
          rows = reconcile_rows defaultLifts [], isAddingNewLift = False,
          new_row = row_mount new_row_props, week = 0, alerts = []\<rparr>\<lparr>isAddingNewLift := True\<rparr>) (NewRowEvent ClickCancel) = Some (Inr s') \<and>
        \<not> isAddingNewLift s'"
proof -
  have "isAddingNewLift (\<lparr>lifts = defaultLifts, storage = persist_lifts defaultLifts,
          rows = reconcile_rows defaultLifts [], isAddingNewLift = False,
          new_row = row_mount new_row_props, week = 0, alerts = []\<rparr>\<lparr>isAddingNewLift := True\<rparr>)" by simp
  from add_row_can_close [OF this] show ?thesis by blast
qed

text \<open>C26. A row's local state survives a change of its lift: when Save renames a
  row onto the name of another lift, that lift is overwritten with the new 1RM while
  its row keeps the local state it had, so it goes on showing the old 1RM.\<close>

theorem rename_overwrite_row_is_stale:
  assumes "map_of (rows s) name = Some st" and "map_of (lifts s) name = Some m"
    and "isEditing st" and "edit_name st \<noteq> name" and "edit_name st \<noteq> ''__proto__''"
    and "map_of (rows s) (edit_name st) = Some st_t"
  shows "\<exists>s'. app_step s (RowEvent name ClickSave) = Some (Inr s') \<and>
              map_of (lifts s') (edit_name st) = Some (edit_max st) \<and>
              map_of (rows s') (edit_name st) = Some st_t \<and> map_of (rows s') name = None"
  using assms
  by (simp add: table_row_props_def number_input_ok_def onSave_row_def map_of_reconcile_rows
        update_conv' obj_map_js_set_plain)

theorem rename_overwrite_row_is_stale_witness:
  "\<exists>s s'. app_step s (RowEvent ''Squat'' ClickSave) = Some (Inr s') \<and>
     map_of (lifts s') ''Deadlift'' = Some 240 \<and>
     map_of (rows s') ''Deadlift'' = Some \<lparr>edit_name = ''Deadlift'', edit_max = 280, isEditing = False\<rparr>"
proof -
  let ?s0 = "\<lparr>lifts = defaultLifts, storage = persist_lifts defaultLifts,
          rows = reconcile_rows defaultLifts [], isAddingNewLift = False,
          new_row = row_mount new_row_props, week = 0, alerts = []\<rparr>"
  let ?evs = "[RowEvent ''Squat'' ClickEdit, RowEvent ''Squat'' (InputName ''Deadlift'')]"
  have "\<exists>s. app_run ?s0 ?evs = Some (Inr s)"
    by (simp add: defaultLifts_def reconcile_rows_def row_mount_def table_row_props_def
          inputs_enabled_def number_input_ok_def)
  then obtain s where r: "app_run ?s0 ?evs = Some (Inr s)" by blast
  have f: "map_of (rows s) ''Squat'' = Some \<lparr>edit_name = ''Deadlift'', edit_max = 240, isEditing = True\<rparr> \<and>
           map_of (lifts s) ''Squat'' = Some 240 \<and>
           map_of (rows s) ''Deadlift'' = Some \<lparr>edit_name = ''Deadlift'', edit_max = 280, isEditing = False\<rparr>"
    using r by (auto simp: defaultLifts_def reconcile_rows_def row_mount_def table_row_props_def
          inputs_enabled_def number_input_ok_def)
  then have a: "map_of (rows s) ''Squat'' = Some \<lparr>edit_name = ''Deadlift'', edit_max = 240, isEditing = True\<rparr>"
    and b: "map_of (lifts s) ''Squat'' = Some 240"
    and c: "map_of (rows s) (edit_name \<lparr>edit_name = ''Deadlift'', edit_max = 240 :: rat, isEditing = True\<rparr>) =
            Some \<lparr>edit_name = ''Deadlift'', edit_max = 280, isEditing = False\<rparr>"
    by simp_all
  from rename_overwrite_row_is_stale [OF a b _ _ _ c]
  show ?thesis by auto
qed

text \<open>C27. In every reachable state a row of the lifts table that is not in edit mode
  shows the name of its own lift (its 1RM may be stale, C26).\<close>

theorem rows_show_own_name:
  assumes "reachable s"
  shows "\<forall>(name, st) \<in> set (LiftsTable_rows collate s). \<not> isEditing st \<longrightarrow> edit_name st = name"
proof -
  have "list_all (\<lambda>(k, st). row_ok k st) (rows s)"
    using reachable_app_inv [OF assms] by (simp add: app_inv_def)
  then have r: "\<And>k st. map_of (rows s) k = Some st \<Longrightarrow> \<not> isEditing st \<Longrightarrow> edit_name st = k"
    using list_all_row_ok_map_of by (fastforce simp: row_ok_def)
  show ?thesis
    by (auto simp: LiftsTable_rows_def row_mount_def table_row_props_def split: option.splits intro: r)
qed

theorem rows_show_own_name_witness:
  "\<exists>st. (''Squat'', st) \<in> set (LiftsTable_rows length \<lparr>lifts = defaultLifts, storage = persist_lifts defaultLifts,
       rows = reconcile_rows defaultLifts [], isAddingNewLift = False,
       new_row = row_mount new_row_props, week = 0, alerts = []\<rparr>) \<and> \<not> isEditing st \<and>
        edit_name st = ''Squat''"
proof -
  let ?st = "row_mount (table_row_props ''Squat'' 240)"
  have m: "(''Squat'', ?st) \<in> set (LiftsTable_rows length \<lparr>lifts = defaultLifts, storage = persist_lifts defaultLifts,
       rows = reconcile_rows defaultLifts [], isAddingNewLift = False,
       new_row = row_mount new_row_props, week = 0, alerts = []\<rparr>)"
    by (simp add: LiftsTable_rows_def reconcile_rows_def defaultLifts_def js_entries_def
          is_array_index_def is_digit_def)
  have e: "\<not> isEditing ?st" by (simp add: row_mount_def)
  have "edit_name ?st = ''Squat''"
    using rows_show_own_name [OF reachable_first_visit_state, of length] m e by auto
  then show ?thesis using m e by blast
qed

text \<open>C28. In every reachable state the program table has one row per row of the
  lifts table, for the same lift names in the same order.\<close>

theorem tables_aligned:
  assumes "reachable s"
  shows "map (\<lambda>r. case r of Inr row \<Rightarrow> Some (row_name row) | Inl _ \<Rightarrow> None) (ProgramTable_rows collate s) =
         map (\<lambda>(name, st). Some name) (LiftsTable_rows collate s)"
proof -
  have w: "0 \<le> week s" "week s \<le> 3" using reachable_app_inv [OF assms] by (simp_all add: app_inv_def)
  have "ProgramTableRow name m (week s) = Inr r \<Longrightarrow> row_name r = name" for name m r
    by (auto simp: ProgramTableRow_Inr Let_def)
  then show ?thesis
    by (auto simp: ProgramTable_rows_def LiftsTable_rows_def ProgramTableRow_in_range [OF w]
          split: sum.split)
qed

theorem tables_aligned_witness:
  "map (\<lambda>r. case r of Inr row \<Rightarrow> Some (row_name row) | Inl _ \<Rightarrow> None)
     (ProgramTable_rows length
       \<lparr>lifts = defaultLifts, storage = persist_lifts defaultLifts,
        rows = reconcile_rows defaultLifts [], isAddingNewLift = False,
        new_row = row_mount new_row_props, week = 0, alerts = []\<rparr>) =
   map (\<lambda>(name, st). Some name) (LiftsTable_rows length
       \<lparr>lifts = defaultLifts, storage = persist_lifts defaultLifts,
        rows = reconcile_rows defaultLifts [], isAddingNewLift = False,
        new_row = row_mount new_row_props, week = 0, alerts = []\<rparr>)"
  using tables_aligned [OF reachable_first_visit_state] .

end
