(* ===== verification/Spec2Isabelle.thy ===== *)
theory Spec2Isabelle
  imports App
begin

text \<open>
  \<^bold>\<open>A verification development of the 8-6-4-3 strength-training planner.\<close>

  The program (src/src/App.tsx, one React module) keeps a table of lifts, each a name
  with its one-repetition maximum (1RM), and derives from it a four-week
  percentage-based program. Its parts and how they interact:
  \<^item> \<open>LiftsContextProvider\<close> (lines 30--47) owns the lift object, loads it from
    \<open>localStorage\<close> on mount (or seeds \<open>defaultLifts\<close>, lines 7--21) and writes it
    back with \<open>JSON.stringify\<close> whenever it changes;
  \<^item> \<open>LiftsTable\<close> (lines 144--225) renders one \<open>LiftTableRow\<close> (lines 51--142) per lift,
    keyed by name, and an add row; their handlers change the lift object through
    \<open>setLifts\<close> updaters and raise alerts;
  \<^item> \<open>ProgramTable\<close> and \<open>ProgramTableRow\<close> (lines 227--300) hold the selected week
    and compute one program row per lift.

  \<^bold>\<open>Theories\<close>, each importing the ones it builds on:
  \<^item> \<open>Prelude\<close>: JavaScript numbers as exact rationals (\<open>js_number\<close>), the \<open>js_error\<close>
    type of thrown errors, array reads that may yield \<open>undefined\<close>, \<open>Math.ceil\<close>, the
    \<open>js_simps\<close> evaluation rules and association-list lemmas.
  \<^item> \<open>Js_Number\<close>: \<open>Number.prototype.toFixed\<close> with the decimal printer and the
    digit reader (round trip \<open>digits_value_nat_digits\<close>, shape \<open>toFixed_parts\<close>).
  \<^item> \<open>Program\<close>: \<open>schemeByWeek\<close>, \<open>working_weight\<close> and \<open>ProgramTableRow\<close>
    (claims C1--C5): the weight is a multiple of 2.5 in \<open>[raw, raw + 2.5)\<close>, the
    volume and the percentage are printed exactly, a week outside \<open>0..3\<close> is the
    \<open>TypeError\<close> branch, and the weight grows from week to week.
  \<^item> \<open>Js_Object\<close>: the lift object as an insertion-ordered association list with
    reads that fall back to \<open>Object.prototype\<close>, the \<open>__proto__\<close> setter, \<open>delete\<close>
    and \<open>Object.entries\<close>; each operation refines an operation on finite maps.
  \<^item> \<open>Lifts_Table\<close>: \<open>defaultLifts\<close>, the three updaters and the handlers of
    \<open>LiftsTable\<close> as lists of effects (C6--C12): validation of the add row and
    its truthiness check, the exact effect and idempotence of delete, the overwrite
    of rename and the lost \<open>__proto__\<close> rename.
  \<^item> \<open>Lift_Row\<close>: \<open>LiftTableRow\<close> as a state machine of its local state, with
    \<open>None\<close> for a control that is absent or disabled (C13--C17).
  \<^item> \<open>Json\<close>: \<open>JSON.stringify\<close> of an object of numbers (string quoting, numbers in
    fixed notation) and a parser of that subset of JSON; \<open>JSON_roundtrip\<close> proves
    that parsing the printed object gives back its entries.
  \<^item> \<open>Provider\<close>: the load and save effects of \<open>LiftsContextProvider\<close>: a reload
    after a save restores the lifts, after the transient write of \<open>{}\<close> (C18).
  \<^item> \<open>App\<close>: the application as a step function \<open>app_step\<close> over user events on a
    record of every component's state, with keyed reconciliation of the rows and
    the save effect; the inductive \<open>reachable\<close> states and their invariant
    \<open>app_inv\<close>, proved by rule induction (\<open>reachable_app_inv\<close>); the registry of
    the specification (\<open>reg_apply\<close>) and the refinement lemma
    \<open>app_step_registry\<close>. Claims C19--C28: storage in sync, reload restores the
    lifts, week bounds, no program row throws, refinement, adding through the
    interface, the add row can always be closed, the stale row left by a rename
    onto another lift, a row out of edit mode shows its own name, and the two
    tables list the same lifts in the same order. The invariant \<open>app_inv\<close> also
    records that every 1RM is a decimal; this follows from the modelled input
    domain (a number input yields a decimal numeral) and is used, not claimed.

  \<^bold>\<open>Recursion and bounds.\<close> Every definition is total and executable. The
  non-structural recursions are \<open>factor_count\<close> (measure: the number divided) and
  \<open>json_members_parse\<close> (measure: the length of the input, which every member
  shortens, \<open>json_member_parse_shorter\<close>); no fuel is needed. Weeks are kept in
  \<open>0..3\<close> by the disabled buttons, which \<open>week_in_range\<close> shows.

  \<^bold>\<open>Not modelled\<close>, and why:
  \<^item> IEEE doubles: numbers are exact rationals, so the model has no rounding error
    in \<open>max * percentage\<close> (the source may produce e.g. 92.00000000000001 before
    \<open>Math.ceil\<close>); the claims hold of the exact values.
  \<^item> Exponent notation of \<open>Number::toString\<close> (from \<open>10\<^sup>2\<^sup>1\<close> up and below
    \<open>10\<^sup>-\<^sup>6\<close>): \<open>json_number\<close> prints fixed notation; the parser reads exponents.
  \<^item> JSON texts other than an object of numbers: \<open>JSON_parse\<close> rejects them as a
    \<open>SyntaxError\<close>, while \<open>JSON.parse\<close> would return a non-object the program then
    misuses; the program itself only ever stores objects of numbers.
  \<^item> The collation of \<open>localeCompare\<close> depends on the locale; it is the parameter
    \<open>collate\<close> of the two table renderings.
  \<^item> Rendering, CSS classes and the blocking of \<open>alert\<close> are presentation; an alert
    is recorded in \<open>alerts\<close>. \<open>localStorage\<close> write failures are not modelled.
  \<^item> The context default \<open>defaultValue\<close> (lines 23--28) is only used outside a
    provider, which the application never does.
\<close>

end
